theory Spec2Isabelle
  imports Main "HOL-Library.Word" "HOL-Library.Sublist"
begin

unbundle bit_operations_syntax

section \<open>Overview\<close>

text \<open>
  A model of the Terrarium service: the Python environment of
  \<open>services/python-interpreter/service.ts\<close> (base64 bridge, file listing, \<open>runCode\<close>
  with its error context enrichment, \<open>waitForReady\<close>), the lock of
  \<open>utils/async-utils.ts\<close> and the request handler of \<open>index.ts\<close>. The first part
  holds the definitions, the second part the properties.
\<close>

section \<open>Strings of the host language\<close>

text \<open>
  The service is TypeScript. Its strings are modelled as \<open>string\<close>; the few library
  operations on strings that \<open>runCode\<close> uses (\<open>split\<close>, \<open>join\<close>, \<open>slice\<close>,
  \<open>parseInt\<close>, number-to-string conversion) are written out here.
\<close>

definition newline :: char where
  "newline = CHR 0x0A"

definition is_digit :: "char \<Rightarrow> bool" where
  \<open>is_digit c = (c \<in> set ''0123456789'')\<close>

text \<open>\<open>s.split(sep)\<close> for a one-character separator: never empty, \<open>"".split(sep) = [""]\<close>.\<close>

fun split_on :: "char \<Rightarrow> string \<Rightarrow> string list" where
  "split_on sep [] = [[]]"
| "split_on sep (c # cs) =
     (if c = sep then [] # split_on sep cs
      else (case split_on sep cs of
              [] \<Rightarrow> [[c]]
            | l # ls \<Rightarrow> (c # l) # ls))"

text \<open>\<open>xs.join(sep)\<close>.\<close>

fun join_with :: "string \<Rightarrow> string list \<Rightarrow> string" where
  "join_with sep [] = []"
| "join_with sep [x] = x"
| "join_with sep (x # y # ys) = x @ sep @ join_with sep (y # ys)"

text \<open>\<open>xs.slice(start, end)\<close> for non-negative integer arguments.\<close>

definition slice_arr :: "nat \<Rightarrow> nat \<Rightarrow> 'a list \<Rightarrow> 'a list" where
  "slice_arr start end xs = drop start (take end xs)"

text \<open>\<open>parseInt(ds)\<close> on a non-empty run of decimal digits.\<close>

definition digit_val :: "char \<Rightarrow> nat" where
  "digit_val c = of_char c - 48"

definition parseInt :: "string \<Rightarrow> nat" where
  "parseInt ds = foldl (\<lambda>acc c. acc * 10 + digit_val c) 0 ds"

text \<open>The decimal rendering of a non-negative integer, as \<open>n + ": "\<close> produces it.\<close>

definition digit_char :: "nat \<Rightarrow> char" where
  "digit_char n = char_of (48 + n)"

fun string_of_nat :: "nat \<Rightarrow> string" where
  "string_of_nat n =
     (if n < 10 then [digit_char n]
      else string_of_nat (n div 10) @ [digit_char (n mod 10)])"

declare string_of_nat.simps [simp del]

section \<open>Error context enrichment (the catch block of \<open>runCode\<close>)\<close>

text \<open>
  The catch block searches the error text with the regular expression
  \<^verbatim>\<open>/File "<exec>", line (\d+)/\<close>. \<open>lineMatch\<close> is that search: the leftmost position
  at which the literal prefix is followed by at least one digit, and there the longest
  run of digits (group 1); \<open>None\<close> when the expression does not match.
\<close>

definition exec_marker :: string where
  \<open>exec_marker = ''File "<exec>", line ''\<close>

fun lineMatch :: "string \<Rightarrow> string option" where
  "lineMatch [] = None"
| "lineMatch (c # cs) =
     (if take (length exec_marker) (c # cs) = exec_marker
         \<and> takeWhile is_digit (drop (length exec_marker) (c # cs)) \<noteq> []
      then Some (takeWhile is_digit (drop (length exec_marker) (c # cs)))
      else lineMatch cs)"

text \<open>
  \<open>enrich code errorMsg\<close> is the value of \<open>errorMsg\<close> after the \<open>if (lineMatch != null)\<close>
  block. \<open>Math.max(1, lineNum - 4)\<close> is computed on \<open>nat\<close>: truncating subtraction and the
  maximum with 1 give the same number as the integer expression.
\<close>

definition enrich :: "string \<Rightarrow> string \<Rightarrow> string" where
  "enrich code errorMsg =
     (case lineMatch errorMsg of
        None \<Rightarrow> errorMsg
      | Some ds \<Rightarrow>
          let lineNum = parseInt ds;
              codeLines = split_on newline code;
              startLine = max 1 (lineNum - 4);
              endLine = min (length codeLines) (lineNum + 4);
              codeContext =
                join_with [newline]
                  (map (\<lambda>(idx, line). string_of_nat (startLine + idx) @ '': '' @ line)
                     (enumerate 0 (slice_arr (startLine - 1) endLine codeLines)))
          in errorMsg @ [newline, newline] @ ''Code context:'' @ [newline] @ codeContext)"





section \<open>Base64 (\<open>bytesToBase64\<close>, \<open>base64ToBytes\<close>)\<close>

text \<open>
  Both functions go through a "binary string", one character per byte, and the
  platform's \<open>btoa\<close> and \<open>atob\<close>. A \<open>char\<close> is one such character (code point 0 to 255).
  \<open>btoa\<close> is the standard encoding with padding; \<open>atob\<close> is the forgiving decoder of
  the platform: it drops ASCII whitespace, drops one or two trailing \<open>=\<close> when the length
  is a multiple of four, fails on a length of 1 modulo 4 or on a character outside the
  alphabet, and discards the left-over bits of a final partial group.
\<close>

type_synonym byte = "8 word"

text \<open>
  What \<open>runCode\<close> can catch. It reads only \<open>error.type\<close> (which the engine's
  \<open>PythonError\<close> carries: the name of the Python exception class) and
  \<open>error.toString()\<close>.
\<close>

datatype js_error =
    PythonError string string
  | ErrnoError nat
  | InvalidCharacterError
  | TypeError string
  | RangeError string
  | Rejected string

fun error_type :: "js_error \<Rightarrow> string option" where
  "error_type (PythonError ty txt) = Some ty"
| "error_type _ = None"

fun error_toString :: "js_error \<Rightarrow> string" where
  "error_toString (PythonError ty txt) = txt"
| "error_toString (ErrnoError n) = ''ErrnoError: FS error''"
| "error_toString InvalidCharacterError =
     ''InvalidCharacterError: The string to be decoded is not correctly encoded.''"
| "error_toString (TypeError m) = ''TypeError: '' @ m"
| "error_toString (RangeError m) = ''RangeError: '' @ m"
| "error_toString (Rejected m) = m"

definition b64_char :: "nat \<Rightarrow> char" where
  "b64_char n =
     (if n < 26 then char_of (65 + n)
      else if n < 52 then char_of (97 + (n - 26))
      else if n < 62 then char_of (48 + (n - 52))
      else if n = 62 then CHR ''+'' else CHR ''/'')"

definition b64_val :: "char \<Rightarrow> nat option" where
  "b64_val c =
     (let k = (of_char c :: nat) in
      if 65 \<le> k \<and> k \<le> 90 then Some (k - 65)
      else if 97 \<le> k \<and> k \<le> 122 then Some (k - 97 + 26)
      else if 48 \<le> k \<and> k \<le> 57 then Some (k - 48 + 52)
      else if c = CHR ''+'' then Some 62
      else if c = CHR ''/'' then Some 63
      else None)"

fun b64_encode :: "nat list \<Rightarrow> string" where
  "b64_encode (a # b # c # rest) =
     [b64_char (a div 4), b64_char ((a mod 4) * 16 + b div 16),
      b64_char ((b mod 16) * 4 + c div 64), b64_char (c mod 64)] @ b64_encode rest"
| "b64_encode [a, b] =
     [b64_char (a div 4), b64_char ((a mod 4) * 16 + b div 16),
      b64_char ((b mod 16) * 4), CHR ''='']"
| "b64_encode [a] = [b64_char (a div 4), b64_char ((a mod 4) * 16), CHR ''='', CHR ''='']"
| "b64_encode [] = []"

fun b64_decode :: "nat list \<Rightarrow> nat list" where
  "b64_decode (s1 # s2 # s3 # s4 # rest) =
     [s1 * 4 + s2 div 16, (s2 mod 16) * 16 + s3 div 4, (s3 mod 4) * 64 + s4] @ b64_decode rest"
| "b64_decode [s1, s2, s3] = [s1 * 4 + s2 div 16, (s2 mod 16) * 16 + s3 div 4]"
| "b64_decode [s1, s2] = [s1 * 4 + s2 div 16]"
| "b64_decode [s1] = []"
| "b64_decode [] = []"

definition is_ascii_whitespace :: "char \<Rightarrow> bool" where
  "is_ascii_whitespace c = (c \<in> {CHR 0x09, CHR 0x0A, CHR 0x0C, CHR 0x0D, CHR 0x20})"

definition strip_padding :: "string \<Rightarrow> string" where
  "strip_padding d =
     (if 2 \<le> length d \<and> last d = CHR ''='' \<and> last (butlast d) = CHR ''=''
      then butlast (butlast d)
      else if 1 \<le> length d \<and> last d = CHR ''='' then butlast d
      else d)"

text \<open>\<open>btoa\<close> throws only on a character above 255, which a \<open>char\<close> never is.\<close>

definition btoa :: "string \<Rightarrow> string" where
  "btoa s = b64_encode (map of_char s)"

definition atob :: "string \<Rightarrow> js_error + string" where
  "atob s =
     (let d0 = filter (\<lambda>c. \<not> is_ascii_whitespace c) s;
          d = (if length d0 mod 4 = 0 then strip_padding d0 else d0)
      in if length d mod 4 = 1 then Inl InvalidCharacterError
         else case those (map b64_val d) of
                None \<Rightarrow> Inl InvalidCharacterError
              | Some vs \<Rightarrow> Inr (map char_of (b64_decode vs)))"

text \<open>
  \<open>String.fromCodePoint(...bytes)\<close>, then \<open>btoa\<close>. The spread passes every byte as
  one argument of a single call. A JavaScript engine accepts only so many arguments
  in one call and throws a \<open>RangeError\<close> beyond that; \<open>limit\<close> is this number for
  the engine the service runs on.
\<close>

definition bytesToBase64 :: "nat \<Rightarrow> byte list \<Rightarrow> js_error + string" where
  "bytesToBase64 limit bytes =
     (if limit < length bytes
      then Inl (RangeError ''Maximum call stack size exceeded'')
      else Inr (btoa (map (\<lambda>b. char_of (unat b)) bytes)))"

text \<open>\<open>atob\<close>, then \<open>Uint8Array.from(binString, m => m.codePointAt(0))\<close>.\<close>

definition base64ToBytes :: "string \<Rightarrow> js_error + byte list" where
  "base64ToBytes base64 =
     (case atob base64 of
        Inl e \<Rightarrow> Inl e
      | Inr binString \<Rightarrow> Inr (map (\<lambda>m. of_nat (of_char m)) binString))"

text \<open>
  For the proofs: the six-bit groups and the padding that \<open>b64_encode\<close> produces,
  taken apart.
\<close>

fun sextets :: "nat list \<Rightarrow> nat list" where
  "sextets (a # b # c # rest) =
     [a div 4, (a mod 4) * 16 + b div 16, (b mod 16) * 4 + c div 64, c mod 64] @ sextets rest"
| "sextets [a, b] = [a div 4, (a mod 4) * 16 + b div 16, (b mod 16) * 4]"
| "sextets [a] = [a div 4, (a mod 4) * 16]"
| "sextets [] = []"

fun padding :: "nat list \<Rightarrow> string" where
  "padding (a # b # c # rest) = padding rest"
| "padding [a, b] = ''=''"
| "padding [a] = ''==''"
| "padding [] = []"


section \<open>The engine's path helper and filesystem\<close>

text \<open>
  The service reaches the sandbox filesystem through the engine's \<open>PATH.join2\<close>,
  \<open>FS.readdir\<close>, \<open>FS.stat\<close>, \<open>FS.readFile\<close> and \<open>FS.writeFile\<close>. The engine is
  not part of the repository; the definitions of this section model the behaviour
  of these calls that the service relies on.

  \<open>PATH.join2 l r\<close> is \<open>PATH.normalize (l + "/" + r)\<close>. \<open>normalize\<close> splits at
  slashes, drops empty parts, resolves \<open>.\<close> and \<open>..\<close> scanning from the right (a part
  is dropped for every \<open>..\<close> to its right that is still pending), keeps the pending
  \<open>..\<close> only in a relative path, and keeps a trailing slash.
\<close>

fun normalizeArray_scan :: "string list \<Rightarrow> string list \<times> nat" where
  "normalizeArray_scan [] = ([], 0)"
| "normalizeArray_scan (p # ps) =
     (let (kept, up) = normalizeArray_scan ps
      in if p = ''.'' then (kept, up)
         else if p = ''..'' then (kept, Suc up)
         else if 0 < up then (kept, up - 1)
         else (p # kept, up))"

definition normalizeArray :: "string list \<Rightarrow> bool \<Rightarrow> string list" where
  "normalizeArray parts allowAboveRoot =
     (let (kept, up) = normalizeArray_scan parts
      in if allowAboveRoot then replicate up ''..'' @ kept else kept)"

definition PATH_normalize :: "string \<Rightarrow> string" where
  "PATH_normalize path =
     (let isAbsolute = (path \<noteq> [] \<and> hd path = CHR ''/'');
          trailingSlash = (path \<noteq> [] \<and> last path = CHR ''/'');
          p = join_with ''/''
                (normalizeArray (filter (\<lambda>x. x \<noteq> []) (split_on CHR ''/'' path)) (\<not> isAbsolute));
          p = (if p = [] \<and> \<not> isAbsolute then ''.'' else p);
          p = (if p \<noteq> [] \<and> trailingSlash then p @ ''/'' else p)
      in (if isAbsolute then ''/'' else []) @ p)"

definition join2 :: "string \<Rightarrow> string \<Rightarrow> string" where
  "join2 l r = PATH_normalize (l @ ''/'' @ r)"

text \<open>
  The in-memory filesystem is a tree: a file holds bytes, a directory holds named
  entries (unique names, in insertion order). Paths are looked up from the root,
  part by part.
\<close>

datatype node = File "byte list" | Dir "(string \<times> node) list"

fun set_entry :: "string \<Rightarrow> node \<Rightarrow> (string \<times> node) list \<Rightarrow> (string \<times> node) list" where
  "set_entry k v [] = [(k, v)]"
| "set_entry k v ((k', v') # es) =
     (if k = k' then (k, v) # es else (k', v') # set_entry k v es)"

definition path_parts :: "string \<Rightarrow> string list" where
  "path_parts path = filter (\<lambda>x. x \<noteq> []) (split_on CHR ''/'' (PATH_normalize path))"

fun node_at :: "string list \<Rightarrow> node \<Rightarrow> node option" where
  "node_at [] n = Some n"
| "node_at (c # cs) (File d) = None"
| "node_at (c # cs) (Dir es) =
     (case map_of es c of None \<Rightarrow> None | Some child \<Rightarrow> node_at cs child)"

text \<open>
  \<open>FS.writeFile\<close> creates or truncates the file. It fails (the number is the errno
  of the thrown \<open>ErrnoError\<close>) when a directory on the way is missing (44), when a
  part on the way is a file (54), or when the target is a directory (31).
\<close>

fun write_at :: "string list \<Rightarrow> byte list \<Rightarrow> node \<Rightarrow> js_error + node" where
  "write_at [] d n = Inl (ErrnoError 31)"
| "write_at (c # cs) d (File old) = Inl (ErrnoError 54)"
| "write_at [c] d (Dir es) =
     (case map_of es c of
        Some (Dir sub) \<Rightarrow> Inl (ErrnoError 31)
      | _ \<Rightarrow> Inr (Dir (set_entry c (File d) es)))"
| "write_at (c # c' # cs) d (Dir es) =
     (case map_of es c of
        None \<Rightarrow> Inl (ErrnoError 44)
      | Some child \<Rightarrow>
          (case write_at (c' # cs) d child of
             Inl e \<Rightarrow> Inl e
           | Inr child' \<Rightarrow> Inr (Dir (set_entry c child' es))))"

definition FS_writeFile :: "string \<Rightarrow> byte list \<Rightarrow> node \<Rightarrow> js_error + node" where
  "FS_writeFile path d fs = write_at (path_parts path) d fs"

definition FS_readFile :: "string \<Rightarrow> node \<Rightarrow> js_error + byte list" where
  "FS_readFile path fs =
     (case node_at (path_parts path) fs of
        None \<Rightarrow> Inl (ErrnoError 44)
      | Some (Dir es) \<Rightarrow> Inl (ErrnoError 31)
      | Some (File d) \<Rightarrow> Inr d)"

text \<open>
  \<open>FS.readdir\<close> of a directory returns the two markers \<open>.\<close> and \<open>..\<close> and then the
  names of the entries; \<open>FS_readdir\<close> gives the entries behind the markers, each with
  its node. It throws on a path that is missing (44) or not a directory (54).
\<close>

definition FS_readdir :: "string \<Rightarrow> node \<Rightarrow> js_error + (string \<times> node) list" where
  "FS_readdir path fs =
     (case node_at (path_parts path) fs of
        None \<Rightarrow> Inl (ErrnoError 44)
      | Some (File d) \<Rightarrow> Inl (ErrnoError 54)
      | Some (Dir es) \<Rightarrow> Inr es)"


section \<open>The Python environment (\<open>PyodidePythonEnvironment\<close>)\<close>

definition pythonEnvironmentHomeDir :: string where
  "pythonEnvironmentHomeDir = ''/home/earth''"

definition defaultDirectoryOuterPath :: string where
  "defaultDirectoryOuterPath = ''default_python_home''"

text \<open>
  An entry of the request's \<open>files\<close> array. A field that is absent (\<open>undefined\<close>, which
  the test \<open>== undefined\<close> does not tell from \<open>null\<close>) is \<open>None\<close>.
\<close>

record file_entry =
  filename :: "string option"
  b64_data :: "string option"

text \<open>
  \<open>CodeExecutionResponse\<close>, with every optional field an option. \<open>error.type\<close> is an
  option too: the catch block copies \<open>error.type\<close> of whatever was thrown, and only the
  engine's \<open>PythonError\<close> has one. An output file is the pair of its \<open>filename\<close> and its
  \<open>b64_data\<close>. The type \<open>'v\<close> is the engine's representation of a final expression.
\<close>

record exec_error =
  type :: "string option"
  message :: string

record 'v response =
  success :: bool
  final_expression :: "'v option"
  output_files :: "(string \<times> string) list option"
  error :: "exec_error option"
  std_out :: "string option"
  std_err :: "string option"
  code_runtime :: "int option"

text \<open>
  The engine itself is a parameter of the model. \<open>max_arguments\<close> is the number of
  arguments that the JavaScript engine accepts in one call. \<open>loadPyodide\<close> boots a fresh
  instance and yields its filesystem, or fails. \<open>preloadPackages\<close> is the outcome of
  the two calls that end \<open>loadEnvironment\<close> (\<open>loadPackage\<close> of the common packages
  and the run of their imports). \<open>loadPackagesFromImports\<close> may throw.
  \<open>runPythonAsync code fs\<close> runs the program on the filesystem \<open>fs\<close>: it returns the
  value of the final expression (or none) or throws, leaves the filesystem
  \<open>fs_after\<close>, and has sent \<open>stdout_text\<close> and \<open>stderr_text\<close> to the two output
  callbacks, which append them to \<open>out_string\<close> and \<open>err_string\<close>.
\<close>

record 'v py_run =
  outcome :: "js_error + 'v option"
  fs_after :: node
  stdout_text :: string
  stderr_text :: string

record 'v engine =
  max_arguments :: nat
  loadPyodide :: "js_error + node"
  preloadPackages :: "js_error option"
  loadPackagesFromImports :: "string \<Rightarrow> js_error option"
  runPythonAsync :: "string \<Rightarrow> node \<Rightarrow> 'v py_run"

text \<open>The fields of the class; \<open>pyodide\<close> holds the filesystem of the loaded instance.\<close>

record environment =
  out_string :: string
  err_string :: string
  default_files :: "(string \<times> byte list) list"
  default_file_names :: "string set"
  pyodide :: "node option"

definition new_environment :: environment where
  "new_environment =
     \<lparr>out_string = [], err_string = [], default_files = [], default_file_names = {},
      pyodide = None\<rparr>"

subsection \<open>\<open>prepareEnvironment\<close> and \<open>loadEnvironment\<close>\<close>

text \<open>
  \<open>path.basename\<close> of the host platform: trailing slashes are ignored, the result is
  what follows the last remaining slash. \<open>path.join\<close> of two non-empty parts
  normalises \<open>a + "/" + b\<close>.
\<close>

definition basename :: "string \<Rightarrow> string" where
  "basename p =
     rev (takeWhile (\<lambda>c. c \<noteq> CHR ''/'') (dropWhile (\<lambda>c. c = CHR ''/'') (rev p)))"

definition path_join :: "string \<Rightarrow> string \<Rightarrow> string" where
  "path_join a b = PATH_normalize (a @ ''/'' @ b)"

definition readHostFile :: "string \<times> byte list \<Rightarrow> string \<times> byte list" where
  "readHostFile = (\<lambda>(file, buffer).
     (basename (path_join defaultDirectoryOuterPath file), buffer))"

text \<open>
  \<open>host_files\<close> is what \<open>fs.readdir\<close> and \<open>fs.readFile\<close> find in the seed
  directory: the name of each file and its content.
\<close>

definition prepareEnvironment :: "(string \<times> byte list) list \<Rightarrow> environment \<Rightarrow> environment" where
  "prepareEnvironment host_files env =
     (let filesData = map readHostFile host_files
      in env\<lparr>default_files := default_files env @ filesData,
             default_file_names := default_file_names env \<union> set (map fst filesData)\<rparr>)"

text \<open>
  \<open>loadEnvironment\<close> clears the two accumulators, assigns the fresh instance to
  \<open>this.pyodide\<close>, writes the default files into its home directory and preloads the
  packages. Each of these steps can throw; what was assigned before stays assigned.
\<close>

fun write_default_files :: "(string \<times> byte list) list \<Rightarrow> node \<Rightarrow> js_error option \<times> node" where
  "write_default_files [] fs = (None, fs)"
| "write_default_files ((name, byte_data) # rest) fs =
     (case FS_writeFile (join2 pythonEnvironmentHomeDir name) byte_data fs of
        Inl e \<Rightarrow> (Some e, fs)
      | Inr fs' \<Rightarrow> write_default_files rest fs')"

definition loadEnvironment :: "'v engine \<Rightarrow> environment \<Rightarrow> js_error option \<times> environment" where
  "loadEnvironment eng env =
     (let env0 = env\<lparr>out_string := [], err_string := []\<rparr>
      in case loadPyodide eng of
           Inl e \<Rightarrow> (Some e, env0)
         | Inr fresh \<Rightarrow>
             (case write_default_files (default_files env) fresh of
                (Some e, fs) \<Rightarrow> (Some e, env0\<lparr>pyodide := Some fs\<rparr>)
              | (None, fs) \<Rightarrow> (preloadPackages eng, env0\<lparr>pyodide := Some fs\<rparr>)))"

text \<open>\<open>init\<close>, on an environment that was just constructed.\<close>

definition init :: "'v engine \<Rightarrow> (string \<times> byte list) list \<Rightarrow> js_error option \<times> environment" where
  "init eng host_files = loadEnvironment eng (prepareEnvironment host_files new_environment)"

subsection \<open>\<open>listFilesRecursive\<close>\<close>

text \<open>
  \<open>listFilesRecursive names dir entries\<close> is the loop of \<open>listFilesRecursive(dir)\<close>
  over the entries that \<open>FS.readdir(dir)\<close> returns, \<open>names\<close> being
  \<open>default_file_names\<close>. Each entry comes with the node that \<open>FS.stat\<close> finds at
  \<open>join2 dir entry\<close>. The two markers that \<open>readdir\<close> puts in front are skipped by the
  first test, which is kept.
\<close>

function listFilesRecursive ::
  "string set \<Rightarrow> string \<Rightarrow> (string \<times> node) list \<Rightarrow> string list" where
  "listFilesRecursive names dir [] = []"
| "listFilesRecursive names dir ((entry, n) # entries) =
     (if entry = ''.'' \<or> entry = ''..'' then listFilesRecursive names dir entries
      else if entry \<in> names then listFilesRecursive names dir entries
      else (case n of
              Dir sub \<Rightarrow> listFilesRecursive names (join2 dir entry) sub
            | File d \<Rightarrow> [join2 dir entry])
           @ listFilesRecursive names dir entries)"
  by pat_completeness auto
termination
  by (relation "measure (\<lambda>(names, dir, es). size_list (size_prod (\<lambda>_. 0) size) es)") auto

definition readFileAsBase64 :: "nat \<Rightarrow> string \<Rightarrow> node \<Rightarrow> js_error + string" where
  "readFileAsBase64 limit filePath fs =
     (case FS_readFile filePath fs of
        Inl e \<Rightarrow> Inl e
      | Inr fileData \<Rightarrow> bytesToBase64 limit fileData)"

subsection \<open>\<open>runCode\<close>\<close>

text \<open>\<open>JSON.stringify\<close> of a file entry: the fields that are present, as JSON strings.\<close>

definition hex_digit :: "nat \<Rightarrow> char" where
  "hex_digit n = (if n < 10 then char_of (48 + n) else char_of (87 + n))"

definition json_char :: "char \<Rightarrow> string" where
  "json_char c =
     (if c = CHR 0x22 then [CHR 0x5C, CHR 0x22]
      else if c = CHR 0x5C then [CHR 0x5C, CHR 0x5C]
      else if c = CHR 0x08 then [CHR 0x5C, CHR ''b'']
      else if c = CHR 0x09 then [CHR 0x5C, CHR ''t'']
      else if c = CHR 0x0A then [CHR 0x5C, CHR ''n'']
      else if c = CHR 0x0C then [CHR 0x5C, CHR ''f'']
      else if c = CHR 0x0D then [CHR 0x5C, CHR ''r'']
      else if (of_char c :: nat) < 32
        then [CHR 0x5C, CHR ''u'', CHR ''0'', CHR ''0'',
              hex_digit (of_char c div 16), hex_digit (of_char c mod 16)]
      else [c])"

definition json_string :: "string \<Rightarrow> string" where
  "json_string s = [CHR 0x22] @ concat (map json_char s) @ [CHR 0x22]"

definition JSON_stringify :: "file_entry \<Rightarrow> string" where
  "JSON_stringify f =
     ''{'' @ join_with '',''
       ((case filename f of None \<Rightarrow> [] | Some v \<Rightarrow> [json_string ''filename'' @ '':'' @ json_string v])
        @ (case b64_data f of None \<Rightarrow> [] | Some v \<Rightarrow> [json_string ''b64_data'' @ '':'' @ json_string v]))
     @ ''}''"

text \<open>
  The state that the \<open>try\<close> block works on: the \<open>result\<close> object, the filesystem of
  the instance, and the two output accumulators.
\<close>

record 'v run_state =
  res :: "'v response"
  fsys :: node
  outs :: string
  errs :: string

text \<open>
  The callback of \<open>files.forEach\<close>. Its \<open>return result\<close> ends the callback for this
  entry only; \<open>forEach\<close> goes on with the next entry. A throw (of \<open>atob\<close> or of
  \<open>FS.writeFile\<close>) ends the loop and leaves the \<open>try\<close> block.
\<close>

definition write_input :: "file_entry \<Rightarrow> 'v run_state \<Rightarrow> js_error + 'v run_state" where
  "write_input f s =
     (if filename f = None \<or> b64_data f = None
      then Inr (s\<lparr>res := (res s)\<lparr>success := False,
                     error := Some \<lparr>type = Some ''parsing'',
                                    message = ''file data is missing for: '' @ JSON_stringify f\<rparr>\<rparr>\<rparr>)
      else (case base64ToBytes (the (b64_data f)) of
              Inl e \<Rightarrow> Inl e
            | Inr bytes \<Rightarrow>
                (case FS_writeFile (join2 pythonEnvironmentHomeDir (the (filename f))) bytes (fsys s) of
                   Inl e \<Rightarrow> Inl e
                 | Inr fs' \<Rightarrow> Inr (s\<lparr>fsys := fs'\<rparr>))))"

fun forEach_files :: "file_entry list \<Rightarrow> 'v run_state \<Rightarrow> js_error option \<times> 'v run_state" where
  "forEach_files [] s = (None, s)"
| "forEach_files (f # rest) s =
     (case write_input f s of
        Inl e \<Rightarrow> (Some e, s)
      | Inr s' \<Rightarrow> forEach_files rest s')"

text \<open>The \<open>map\<close> that reads every new file; the first failing read throws.\<close>

fun read_new_files ::
  "nat \<Rightarrow> node \<Rightarrow> string list \<Rightarrow> js_error + (string \<times> string) list" where
  "read_new_files limit fs [] = Inr []"
| "read_new_files limit fs (f # rest) =
     (case readFileAsBase64 limit f fs of
        Inl e \<Rightarrow> Inl e
      | Inr b64 \<Rightarrow>
          (case read_new_files limit fs rest of
             Inl e \<Rightarrow> Inl e
           | Inr others \<Rightarrow> Inr ((drop (length pythonEnvironmentHomeDir + 1) f, b64) # others)))"

text \<open>
  The \<open>result\<close> object and the state at the start of the \<open>try\<close> block.
\<close>

definition initial_state :: "environment \<Rightarrow> node \<Rightarrow> 'v run_state" where
  "initial_state env fs0 =
     \<lparr>res = \<lparr>success = True, final_expression = None, output_files = None, error = None,
             std_out = None, std_err = None, code_runtime = None\<rparr>,
      fsys = fs0, outs = out_string env, errs = err_string env\<rparr>"

text \<open>
  The collection of the output files: the recursive listing of the home directory,
  the filter against the input file names, and the reads.
\<close>

definition collect_new_files ::
  "nat \<Rightarrow> environment \<Rightarrow> file_entry list \<Rightarrow> node \<Rightarrow> js_error + (string \<times> string) list" where
  "collect_new_files limit env files fs =
     (case FS_readdir pythonEnvironmentHomeDir fs of
        Inl e \<Rightarrow> Inl e
      | Inr entries \<Rightarrow>
          (let allFiles = listFilesRecursive (default_file_names env)
                            pythonEnvironmentHomeDir entries;
               input_file_names = map filename files
           in read_new_files limit fs
                (filter (\<lambda>f. Some (drop (length pythonEnvironmentHomeDir + 1) f)
                               \<notin> set input_file_names) allFiles)))"

text \<open>
  The \<open>try\<close> block from \<open>runPythonAsync\<close> on: the run, then the collection of the
  output files, then the assignments to \<open>result\<close>.
\<close>

definition run_and_collect ::
  "'v engine \<Rightarrow> environment \<Rightarrow> string \<Rightarrow> file_entry list \<Rightarrow> 'v run_state
     \<Rightarrow> js_error option \<times> 'v run_state" where
  "run_and_collect eng env code files s1 =
     (let run = runPythonAsync eng code (fsys s1);
          s2 = s1\<lparr>fsys := fs_after run,
                  outs := outs s1 @ stdout_text run,
                  errs := errs s1 @ stderr_text run\<rparr>
      in case outcome run of
           Inl e \<Rightarrow> (Some e, s2)
         | Inr interpreterResult \<Rightarrow>
             (case collect_new_files (max_arguments eng) env files (fsys s2) of
                Inl e \<Rightarrow> (Some e, s2)
              | Inr new_files \<Rightarrow>
                  (None,
                   s2\<lparr>res := (res s2)\<lparr>output_files := Some new_files,
                                      final_expression := interpreterResult,
                                      success := True\<rparr>\<rparr>)))"

text \<open>
  The whole \<open>try\<close> block: what was thrown, if anything, and the state it leaves.
  Without a loaded instance the first call on \<open>pyodide\<close> is a \<open>TypeError\<close>.
\<close>

definition try_block ::
  "'v engine \<Rightarrow> environment \<Rightarrow> string \<Rightarrow> file_entry list \<Rightarrow> js_error option \<times> 'v run_state" where
  "try_block eng env code files =
     (case pyodide env of
        None \<Rightarrow>
          (Some (TypeError ''Cannot read properties of undefined''), initial_state env (Dir []))
      | Some fs0 \<Rightarrow>
          (case loadPackagesFromImports eng code of
             Some e \<Rightarrow> (Some e, initial_state env fs0)
           | None \<Rightarrow>
               (case forEach_files files (initial_state env fs0) of
                  (Some e, s1) \<Rightarrow> (Some e, s1)
                | (None, s1) \<Rightarrow> run_and_collect eng env code files s1)))"

text \<open>
  \<open>runCode\<close>: the \<open>try\<close> block, the \<open>catch\<close> block when something was thrown, and
  the three assignments after them. \<open>startCode\<close> and \<open>endCode\<close> are the two readings
  of \<open>Date.now()\<close>. The function returns the response and the state of the
  environment it leaves behind.
\<close>

definition runCode ::
  "'v engine \<Rightarrow> environment \<Rightarrow> int \<Rightarrow> int \<Rightarrow> string \<Rightarrow> file_entry list
     \<Rightarrow> 'v response \<times> environment" where
  "runCode eng env startCode endCode code files =
     (let (thrown, s) = try_block eng env code files;
          r = (case thrown of
                 None \<Rightarrow> res s
               | Some e \<Rightarrow>
                   (res s)\<lparr>error := Some \<lparr>type = error_type e,
                                          message = enrich code (error_toString e)\<rparr>,
                           success := False\<rparr>)
      in (r\<lparr>std_out := Some (outs s), std_err := Some (errs s),
             code_runtime := Some (endCode - startCode)\<rparr>,
          env\<lparr>out_string := outs s, err_string := errs s,
              pyodide := (case pyodide env of None \<Rightarrow> None | Some fs0 \<Rightarrow> Some (fsys s))\<rparr>))"


section \<open>The listing, seen from the tree\<close>

text \<open>
  For the statements about the listing: \<open>file_paths entries\<close> are the files below a
  directory, each as the list of names that leads to it, in the order of the
  traversal. A name is listed when it is neither of the two markers nor a default
  file name.
\<close>

function file_paths :: "(string \<times> node) list \<Rightarrow> string list list" where
  "file_paths [] = []"
| "file_paths ((entry, n) # entries) =
     (case n of
        Dir sub \<Rightarrow> map ((#) entry) (file_paths sub)
      | File d \<Rightarrow> [[entry]])
     @ file_paths entries"
  by pat_completeness auto
termination
  by (relation "measure (size_list (size_prod (\<lambda>_. 0) size))") auto

definition listed_name :: "string set \<Rightarrow> string \<Rightarrow> bool" where
  "listed_name names c = (c \<noteq> ''.'' \<and> c \<noteq> ''..'' \<and> c \<notin> names)"

text \<open>
  A name that the filesystem can hold is not empty and has no slash. \<open>valid_home fs\<close>
  says that all names below the home directory of \<open>fs\<close> are such names.
  \<open>abs_path parts\<close> is the absolute path with these parts.
\<close>

definition valid_name :: "string \<Rightarrow> bool" where
  "valid_name c = (c \<noteq> [] \<and> CHR ''/'' \<notin> set c)"

function valid_entries :: "(string \<times> node) list \<Rightarrow> bool" where
  "valid_entries [] = True"
| "valid_entries ((entry, n) # entries) =
     (valid_name entry
      \<and> (case n of Dir sub \<Rightarrow> valid_entries sub | File d \<Rightarrow> True)
      \<and> valid_entries entries)"
  by pat_completeness auto
termination
  by (relation "measure (size_list (size_prod (\<lambda>_. 0) size))") auto

definition valid_home :: "node \<Rightarrow> bool" where
  "valid_home fs =
     (case FS_readdir pythonEnvironmentHomeDir fs of
        Inl e \<Rightarrow> True
      | Inr entries \<Rightarrow> valid_entries entries)"

definition abs_path :: "string list \<Rightarrow> string" where
  "abs_path parts = concat (map (\<lambda>p. ''/'' @ p) parts)"

definition plain_part :: "string \<Rightarrow> bool" where
  "plain_part c = (valid_name c \<and> c \<noteq> ''.'' \<and> c \<noteq> ''..'')"


section \<open>The request handler (\<open>index.ts\<close>)\<close>

subsection \<open>\<open>waitForReady\<close>\<close>

text \<open>
  \<open>init()\<close> is started when the process starts and is not awaited, so \<open>this.pyodide\<close>
  is assigned at some later time, or never. \<open>pyodide_at k\<close> is the value that
  \<open>this.pyodide\<close> has after \<open>k\<close> waits of 100 ms. \<open>poll\<close> is the \<open>while\<close> loop, its
  argument and result the counter \<open>max_tries\<close>.
\<close>

function poll :: "(nat \<Rightarrow> node option) \<Rightarrow> nat \<Rightarrow> nat" where
  "poll pyodide_at max_tries =
     (if max_tries < 100 \<and> pyodide_at max_tries = None
      then poll pyodide_at (Suc max_tries)
      else max_tries)"
  by pat_completeness auto
termination
  by (relation "measure (\<lambda>(pyodide_at, max_tries). 100 - max_tries)") auto

declare poll.simps [simp del]

text \<open>The result is the number of waits, or the rejection.\<close>

definition waitForReady :: "(nat \<Rightarrow> node option) \<Rightarrow> js_error + nat" where
  "waitForReady pyodide_at =
     (let waited = (if pyodide_at 0 = None then poll pyodide_at 0 else 0)
      in if pyodide_at waited = None
         then Inl (Rejected ''pyodide is still not loaded after waiting'')
         else Inr waited)"

subsection \<open>\<open>runRequest\<close>\<close>

text \<open>The body of a request: \<open>req.body.code\<close> and \<open>req.body.files\<close>.\<close>

record request =
  body_code :: "string option"
  body_files :: "file_entry list option"

text \<open>\<open>String.prototype.trim\<close>, on the characters a \<open>char\<close> can be.\<close>

definition is_js_whitespace :: "char \<Rightarrow> bool" where
  "is_js_whitespace c =
     (c \<in> {CHR 0x09, CHR 0x0A, CHR 0x0B, CHR 0x0C, CHR 0x0D, CHR 0x20, CHR 0xA0})"

definition trim :: "string \<Rightarrow> string" where
  "trim s = rev (dropWhile is_js_whitespace (rev (dropWhile is_js_whitespace s)))"

text \<open>
  What a call of \<open>runRequest\<close> comes to: the response object it has written on \<open>res\<close>
  (if any), the error that left the function (if any), and the environment.
\<close>

record 'v handled =
  sent :: "'v response option"
  escaped :: "js_error option"
  env_after :: environment

text \<open>
  \<open>runRequest\<close> has no \<open>try\<close>: a rejection of \<open>waitForReady\<close>, a \<open>TypeError\<close> of
  the logging line (\<open>f.b64_data.slice\<close> on an entry without \<open>b64_data\<close>) and a failure of
  \<open>cleanup()\<close> all leave the function. \<open>terminate()\<close> only sets the interrupt flag,
  which \<open>loadEnvironment\<close> clears again. The route handler awaits
  \<open>doWithLock(..., () => runRequest(req, res))\<close> without a \<open>try\<close> of its own, and
  \<open>doWithLock\<close> throws again what its task throws: what leaves \<open>runRequest\<close> leaves the
  route handler.
\<close>

definition runRequest ::
  "'v engine \<Rightarrow> environment \<Rightarrow> (nat \<Rightarrow> node option) \<Rightarrow> int \<Rightarrow> int \<Rightarrow> request \<Rightarrow> 'v handled" where
  "runRequest eng env pyodide_at startCode endCode req =
     (case waitForReady pyodide_at of
        Inl e \<Rightarrow> \<lparr>sent = None, escaped = Some e, env_after = env\<rparr>
      | Inr waited \<Rightarrow>
          (let env1 = env\<lparr>pyodide := pyodide_at waited\<rparr> in
           if body_code req = None \<or> trim (the (body_code req)) = []
           then \<lparr>sent = Some \<lparr>success = False, final_expression = None, output_files = None,
                               error = Some \<lparr>type = Some ''parsing'',
                                              message = ''no code provided''\<rparr>,
                               std_out = None, std_err = None, code_runtime = None\<rparr>,
                 escaped = None, env_after = env1\<rparr>
           else
             (let files = (case body_files req of None \<Rightarrow> [] | Some fl \<Rightarrow> fl) in
              if \<exists>f \<in> set files. b64_data f = None
              then \<lparr>sent = None,
                    escaped = Some (TypeError ''Cannot read properties of undefined (reading slice)''),
                    env_after = env1\<rparr>
              else
                (let (result, env2) = runCode eng env1 startCode endCode (the (body_code req)) files;
                     (thrown, env3) = loadEnvironment eng env2
                 in \<lparr>sent = Some result, escaped = thrown, env_after = env3\<rparr>))))"

section \<open>The request serializer (\<open>doWithLock\<close>)\<close>

text \<open>
  Every call of \<open>doWithLock\<close> for one lock name creates one promise \<open>newLock\<close>; a
  token names the call and its promise. \<open>locks\<close> is the array \<open>locksByName[lockName]\<close>
  of that name (a missing key is the empty array the function starts with), \<open>unlocked\<close>
  holds the promises that were resolved. A call is in one of three phases: suspended
  at \<open>await predecessorLock\<close>, inside \<open>await task()\<close>, or settled (with \<open>True\<close> when the
  task returned and \<open>False\<close> when it threw). \<open>acquired\<close> and \<open>started\<close> record the
  order of the calls and the order in which their tasks were started.
\<close>

type_synonym token = nat

datatype phase = Waiting token | Running | Settled bool

record lock_state =
  locks :: "token list"
  unlocked :: "token list"
  phase_of :: "token \<Rightarrow> phase option"
  acquired :: "token list"
  started :: "token list"

definition no_locks :: lock_state where
  "no_locks = \<lparr>locks = [], unlocked = [], phase_of = (\<lambda>t. None), acquired = [], started = []\<rparr>"

text \<open>
  JavaScript runs each stretch of code between two suspension points without
  interruption, so the function has three atomic steps:
  \<^item> \<open>Acquire t\<close>: the call \<open>t\<close> is made; the code runs from the start to
    \<open>await predecessorLock\<close> or, for the first in line, into \<open>task()\<close>;
  \<^item> \<open>Resume t\<close>: the predecessor's promise is resolved and \<open>t\<close> continues into
    \<open>task()\<close>;
  \<^item> \<open>Finish t ok\<close>: the task of \<open>t\<close> has returned (\<open>ok\<close>) or thrown, and the
    \<open>finally\<close> block runs: \<open>locks.splice(0, 1)\<close>, then \<open>unlock()\<close>.
  A step that the state does not allow gives \<open>None\<close>.
\<close>

datatype event = Acquire token | Resume token | Finish token bool

fun step :: "event \<Rightarrow> lock_state \<Rightarrow> lock_state option" where
  "step (Acquire t) s =
     (if phase_of s t \<noteq> None then None
      else let isFirst = (length (locks s) = 0);
               locks' = locks s @ [t]
           in if isFirst
              then Some (s\<lparr>locks := locks', phase_of := (phase_of s)(t \<mapsto> Running),
                           acquired := acquired s @ [t], started := started s @ [t]\<rparr>)
              else Some (s\<lparr>locks := locks',
                           phase_of := (phase_of s)(t \<mapsto> Waiting (locks' ! (length locks' - 2))),
                           acquired := acquired s @ [t]\<rparr>))"
| "step (Resume t) s =
     (case phase_of s t of
        Some (Waiting predecessorLock) \<Rightarrow>
          if predecessorLock \<in> set (unlocked s)
          then Some (s\<lparr>phase_of := (phase_of s)(t \<mapsto> Running), started := started s @ [t]\<rparr>)
          else None
      | _ \<Rightarrow> None)"
| "step (Finish t ok) s =
     (if phase_of s t = Some Running
      then Some (s\<lparr>locks := drop 1 (locks s), unlocked := unlocked s @ [t],
                   phase_of := (phase_of s)(t \<mapsto> Settled ok)\<rparr>)
      else None)"

fun run :: "event list \<Rightarrow> lock_state \<Rightarrow> lock_state option" where
  "run [] s = Some s"
| "run (e # es) s = (case step e s of None \<Rightarrow> None | Some s' \<Rightarrow> run es s')"

text \<open>
  The invariant of the queue. The array has no token twice and holds exactly the
  calls that are suspended or inside their task; the resolved promises are those of
  the settled calls; the head of the array is inside its task or waits for a promise
  that is already resolved, and every other token waits for the promise just before
  it (\<open>queued\<close>); the calls made so far are the started ones followed by the ones that
  still wait, in the order of the array.
\<close>

fun queued :: "(token \<Rightarrow> phase option) \<Rightarrow> token \<Rightarrow> token list \<Rightarrow> bool" where
  "queued ph p [] = True"
| "queued ph p (t # ts) = (ph t = Some (Waiting p) \<and> queued ph t ts)"

definition head_ready :: "lock_state \<Rightarrow> bool" where
  "head_ready s =
     (case locks s of
        [] \<Rightarrow> True
      | h # rest \<Rightarrow>
          (phase_of s h = Some Running
           \<or> (\<exists>p. phase_of s h = Some (Waiting p) \<and> p \<in> set (unlocked s)))
          \<and> queued (phase_of s) h rest)"

definition lock_inv :: "lock_state \<Rightarrow> bool" where
  "lock_inv s =
     (distinct (locks s)
      \<and> (\<forall>t. t \<in> set (locks s) \<longleftrightarrow>
               (phase_of s t = Some Running \<or> (\<exists>p. phase_of s t = Some (Waiting p))))
      \<and> (\<forall>t. t \<in> set (unlocked s) \<longleftrightarrow> (\<exists>ok. phase_of s t = Some (Settled ok)))
      \<and> head_ready s
      \<and> acquired s = started s @ filter (\<lambda>t. phase_of s t \<noteq> Some Running) (locks s))"

text \<open>
  Two states of a concrete run: three calls, of which the first has thrown and the
  second is inside its task; and the same after the second has returned.
\<close>

definition three_calls :: lock_state where
  "three_calls =
     \<lparr>locks = [2, 3], unlocked = [1],
      phase_of = (\<lambda>t. None)(1 \<mapsto> Settled False, 2 \<mapsto> Running, 3 \<mapsto> Waiting 2),
      acquired = [1, 2, 3], started = [1, 2]\<rparr>"

definition second_done :: lock_state where
  "second_done =
     three_calls\<lparr>locks := [3], unlocked := [1, 2],
                 phase_of := (phase_of three_calls)(2 \<mapsto> Settled True)\<rparr>"


section \<open>A small engine for concrete runs\<close>

text \<open>
  The concrete runs below use an engine that knows four programs: \<open>1 + 1\<close>; a
  program that writes \<open>b.txt\<close>; a program that writes \<open>part.txt\<close> and then divides by
  zero on its second line; and a program that creates a directory \<open>sub\<close> holding
  \<open>seed.txt\<close> and \<open>new.txt\<close>. Every other text is a syntax error. A fresh instance has
  an empty home directory; the seed directory of the host holds one file, \<open>seed.txt\<close>.
  Its JavaScript engine accepts 1000 arguments in one call.
\<close>

definition demo_boot :: node where
  "demo_boot = Dir [(''tmp'', Dir []), (''home'', Dir [(''earth'', Dir [])])]"

definition hi_bytes :: "byte list" where
  "hi_bytes = [104, 105]"

definition write_or_keep :: "string \<Rightarrow> byte list \<Rightarrow> node \<Rightarrow> node" where
  "write_or_keep path d fs = (case FS_writeFile path d fs of Inl e \<Rightarrow> fs | Inr fs' \<Rightarrow> fs')"

fun mkdir_or_keep :: "string list \<Rightarrow> node \<Rightarrow> node" where
  "mkdir_or_keep [] n = n"
| "mkdir_or_keep (c # cs) (File d) = File d"
| "mkdir_or_keep [c] (Dir es) = Dir (set_entry c (Dir []) es)"
| "mkdir_or_keep (c # c' # cs) (Dir es) =
     (case map_of es c of
        None \<Rightarrow> Dir es
      | Some child \<Rightarrow> Dir (set_entry c (mkdir_or_keep (c' # cs) child) es))"

definition zero_division :: js_error where
  \<open>zero_division =
     PythonError ''ZeroDivisionError''
       (''PythonError: Traceback (most recent call last):'' @ [newline]
        @ ''  File "<exec>", line 2, in <module>'' @ [newline]
        @ ''ZeroDivisionError: division by zero'' @ [newline])\<close>

definition demo_run :: "string \<Rightarrow> node \<Rightarrow> int py_run" where
  \<open>demo_run code fs =
     (if code = ''1 + 1''
      then \<lparr>outcome = Inr (Some 2), fs_after = fs, stdout_text = [], stderr_text = []\<rparr>
      else if code = ''open("b.txt", "w").write("hi")''
      then \<lparr>outcome = Inr (Some 2),
            fs_after = write_or_keep ''/home/earth/b.txt'' hi_bytes fs,
            stdout_text = [], stderr_text = []\<rparr>
      else if code = ''open("part.txt", "w").write("hi")'' @ [newline] @ ''1/0''
      then \<lparr>outcome = Inl zero_division,
            fs_after = write_or_keep ''/home/earth/part.txt'' hi_bytes fs,
            stdout_text = [], stderr_text = []\<rparr>
      else if code = ''make_sub()''
      then \<lparr>outcome = Inr None,
            fs_after = write_or_keep ''/home/earth/sub/new.txt'' hi_bytes
                         (write_or_keep ''/home/earth/sub/seed.txt'' hi_bytes
                            (mkdir_or_keep [''home'', ''earth'', ''sub''] fs)),
            stdout_text = [], stderr_text = []\<rparr>
      else \<lparr>outcome = Inl (PythonError ''SyntaxError'' ''PythonError: SyntaxError: invalid syntax''),
            fs_after = fs, stdout_text = [], stderr_text = []\<rparr>)\<close>

definition demo_engine :: "int engine" where
  "demo_engine =
     \<lparr>max_arguments = 1000, loadPyodide = Inr demo_boot, preloadPackages = None,
      loadPackagesFromImports = (\<lambda>code. None), runPythonAsync = demo_run\<rparr>"

definition seed_bytes :: "byte list" where
  "seed_bytes = [115, 101, 101, 100]"

definition demo_env :: environment where
  "demo_env = snd (init demo_engine [(''seed.txt'', seed_bytes)])"

definition part_program :: string where
  \<open>part_program = ''open("part.txt", "w").write("hi")'' @ [newline] @ ''1/0''\<close>

definition demo_fs :: node where
  "demo_fs = Dir [(''tmp'', Dir []),
                  (''home'', Dir [(''earth'', Dir [(''seed.txt'', File seed_bytes)])])]"

definition part_fs :: node where
  "part_fs = Dir [(''tmp'', Dir []),
                  (''home'', Dir [(''earth'', Dir [(''seed.txt'', File seed_bytes),
                                                   (''part.txt'', File hi_bytes)])])]"

text \<open>
  The program that writes \<open>b.txt\<close>, the input file \<open>a.txt\<close>, the filesystem after
  the two, and the home directory after the program that creates \<open>sub\<close>.
\<close>

definition write_b_program :: string where
  \<open>write_b_program = ''open("b.txt", "w").write("hi")''\<close>

definition a_txt :: file_entry where
  "a_txt = \<lparr>filename = Some ''a.txt'', b64_data = Some ''aGk=''\<rparr>"

definition b_fs :: node where
  "b_fs = Dir [(''tmp'', Dir []),
               (''home'', Dir [(''earth'', Dir [(''seed.txt'', File seed_bytes),
                                                (''a.txt'', File hi_bytes),
                                                (''b.txt'', File hi_bytes)])])]"

definition sub_entries :: "(string \<times> node) list" where
  "sub_entries =
     [(''seed.txt'', File seed_bytes),
      (''sub'', Dir [(''seed.txt'', File hi_bytes), (''new.txt'', File hi_bytes)])]"

definition sub_fs :: node where
  "sub_fs = Dir [(''tmp'', Dir []), (''home'', Dir [(''earth'', Dir sub_entries)])]"

text \<open>An entry without a filename, and the filesystem after \<open>a.txt\<close> was written.\<close>

definition no_name :: file_entry where
  "no_name = \<lparr>filename = None, b64_data = Some ''aGk=''\<rparr>"

definition a_fs :: node where
  "a_fs = Dir [(''tmp'', Dir []),
               (''home'', Dir [(''earth'', Dir [(''seed.txt'', File seed_bytes),
                                                (''a.txt'', File hi_bytes)])])]"


section \<open>Properties of the error context enrichment\<close>





lemma split_on_ne: "split_on sep s \<noteq> []"
  by (induction s) (auto split: list.splits)








section \<open>Properties of the base64 bridge\<close>

lemma b64_val_char: "n < 64 \<Longrightarrow> b64_val (b64_char n) = Some n"
  by (auto simp: b64_val_def b64_char_def Let_def)

lemma b64_val_pad: "b64_val CHR ''='' = None"
  by (simp add: b64_val_def)

lemma b64_val_whitespace: "is_ascii_whitespace c \<Longrightarrow> b64_val c = None"
  by (auto simp: is_ascii_whitespace_def b64_val_def)

lemma b64_char_not_pad: "n < 64 \<Longrightarrow> b64_char n \<noteq> CHR ''=''"
  using b64_val_char [of n] b64_val_pad by auto

lemma b64_char_not_whitespace: "n < 64 \<Longrightarrow> \<not> is_ascii_whitespace (b64_char n)"
  using b64_val_char [of n] b64_val_whitespace [of "b64_char n"] by auto

lemma encode_sextets: "b64_encode bs = map b64_char (sextets bs) @ padding bs"
  by (induction bs rule: b64_encode.induct) simp_all

lemma sextets_bound:
  "\<forall>b\<in>set bs. b < 256 \<Longrightarrow> \<forall>s\<in>set (sextets bs). s < 64"
proof (induction bs rule: sextets.induct)
  case (1 a b c rest)
  then have "a < 256" "b < 256" "c < 256" by simp_all
  then have "a div 4 < 64" "(a mod 4) * 16 + b div 16 < 64" "(b mod 16) * 4 + c div 64 < 64" "c mod 64 < 64"
    by arith+
  then show ?case using 1 by simp
next
  case (2 a b)
  then have "a < 256" "b < 256" by simp_all
  then have "a div 4 < 64" "(a mod 4) * 16 + b div 16 < 64" "(b mod 16) * 4 < 64"
    by arith+
  then show ?case by simp
next
  case (3 a)
  then have "a < 256" by simp
  then have "a div 4 < 64" "(a mod 4) * 16 < 64" by arith+
  then show ?case by simp
qed simp

lemma hi_sextet: "(b::nat) < 256 \<Longrightarrow> a div 4 * 4 + ((a mod 4) * 16 + b div 16) div 16 = a"
  by simp

lemma mid_sextet:
  "(b::nat) < 256 \<Longrightarrow> c < 256 \<Longrightarrow>
   (((a mod 4) * 16 + b div 16) mod 16) * 16 + ((b mod 16) * 4 + c div 64) div 4 = b"
  by (simp add: mod_mult2_eq)

lemma lo_sextet: "(c::nat) < 256 \<Longrightarrow> (((b mod 16) * 4 + c div 64) mod 4) * 64 + c mod 64 = c"
  by simp

lemma decode_sextets: "\<forall>b\<in>set bs. b < 256 \<Longrightarrow> b64_decode (sextets bs) = bs"
proof (induction bs rule: sextets.induct)
  case (1 a b c rest)
  then have lt: "a < 256" "b < 256" "c < 256" by simp_all
  show ?case using 1 hi_sextet [OF lt(2), of a] mid_sextet [OF lt(2) lt(3), of a] lo_sextet [OF lt(3), of b]
    by simp
next
  case (2 a b)
  then have lt: "a < 256" "b < 256" by simp_all
  show ?case using hi_sextet [OF lt(2), of a] mid_sextet [OF lt(2), of 0 a]
    by simp
next
  case (3 a)
  show ?case using hi_sextet [of 0 a] by simp
qed simp


lemma length_sextets_padding: "(length (sextets bs) + length (padding bs)) mod 4 = 0"
  by (induction bs rule: sextets.induct) simp_all

lemma length_sextets: "length (sextets bs) mod 4 \<noteq> 1"
proof (induction bs rule: sextets.induct)
  case (1 a b c rest)
  have "length (sextets (a # b # c # rest)) = length (sextets rest) + 4" by simp
  then show ?case using 1 by (simp del: sextets.simps)
qed simp_all

lemma padding_cases: "padding bs = [] \<or> padding bs = ''='' \<or> padding bs = ''==''"
  by (induction bs rule: padding.induct) simp_all

lemma strip_padding_encoded:
  assumes "\<forall>s\<in>set ss. s < 64"
  shows "strip_padding (map b64_char ss @ padding bs) = map b64_char ss"
proof -
  have nopad: "ss \<noteq> [] \<Longrightarrow> last (map b64_char ss) \<noteq> CHR ''=''"
    using assms b64_char_not_pad by (simp add: last_map)
  consider "padding bs = []" | "padding bs = ''=''" | "padding bs = ''==''"
    using padding_cases by blast
  then show ?thesis
  proof cases
    case 1
    then show ?thesis using nopad by (cases "ss = []") (simp_all add: strip_padding_def)
  next
    case 2
    have "strip_padding (map b64_char ss @ ''='') = map b64_char ss"
      using nopad by (cases "ss = []") (simp_all add: strip_padding_def butlast_append)
    then show ?thesis using 2 by simp
  next
    case 3
    have "map b64_char ss @ ''=='' = (map b64_char ss @ ''='') @ ''=''" by simp
    then have "strip_padding (map b64_char ss @ ''=='') = map b64_char ss"
      unfolding strip_padding_def by (simp only: butlast_snoc last_snoc) simp
    then show ?thesis using 3 by simp
  qed
qed

lemma filter_whitespace_encoded:
  assumes "\<forall>s\<in>set ss. s < 64"
  shows "filter (\<lambda>c. \<not> is_ascii_whitespace c) (map b64_char ss @ padding bs) = map b64_char ss @ padding bs"
proof -
  have "\<not> is_ascii_whitespace CHR ''=''" by (simp add: is_ascii_whitespace_def)
  then have "\<forall>c\<in>set (padding bs). \<not> is_ascii_whitespace c"
    using padding_cases [of bs] by auto
  moreover have "\<forall>c\<in>set (map b64_char ss). \<not> is_ascii_whitespace c"
    using assms b64_char_not_whitespace by auto
  ultimately show ?thesis by (simp add: filter_id_conv)
qed

lemma those_b64_val:
  "\<forall>s\<in>set ss. s < 64 \<Longrightarrow> those (map b64_val (map b64_char ss)) = Some ss"
  by (induction ss) (simp_all add: b64_val_char)

lemma atob_btoa: "atob (btoa s) = Inr s"
proof -
  let ?bs = "map of_char s :: nat list"
  let ?ss = "sextets ?bs"
  have bytes: "\<forall>b\<in>set ?bs. b < 256" by auto
  then have six: "\<forall>s\<in>set ?ss. s < 64" by (rule sextets_bound)
  have enc: "btoa s = map b64_char ?ss @ padding ?bs"
    by (simp add: btoa_def encode_sextets)
  have len: "length (map b64_char ?ss @ padding ?bs) mod 4 = 0"
    using length_sextets_padding [of ?bs] by simp
  have len1: "length (map b64_char ?ss) mod 4 \<noteq> 1"
    using length_sextets [of ?bs] by simp
  have dec: "map char_of (b64_decode ?ss) = s"
    using decode_sextets [OF bytes] by (simp add: comp_def)
  have f: "filter (\<lambda>c. \<not> is_ascii_whitespace c) (btoa s) = btoa s"
    by (simp only: enc filter_whitespace_encoded [OF six])
  have l: "length (btoa s) mod 4 = 0"
    by (simp only: enc len)
  have st: "strip_padding (btoa s) = map b64_char ?ss"
    by (simp only: enc strip_padding_encoded [OF six])
  have "atob (btoa s) =
      (if length (map b64_char ?ss) mod 4 = 1 then Inl InvalidCharacterError
       else case those (map b64_val (map b64_char ?ss)) of
                None \<Rightarrow> Inl InvalidCharacterError
              | Some vs \<Rightarrow> Inr (map char_of (b64_decode vs)))"
    unfolding atob_def Let_def f by (simp only: l st refl if_True)
  also have "\<dots> = Inr (map char_of (b64_decode ?ss))"
    using len1 by (simp only: those_b64_val [OF six] if_False option.case)
  finally show ?thesis by (simp only: dec)
qed

lemma bytes_binary_string:
  "map (\<lambda>m. of_nat (of_char m)) (map (\<lambda>b. char_of (unat b)) b) = (b :: byte list)"
proof (induction b)
  case Nil
  show ?case by simp
next
  case (Cons a b)
  have "unat a < 256" using unsigned_less [of a] by simp
  then show ?case using Cons by simp
qed

text \<open>
  Within the argument limit the round trip holds: the encoding succeeds and decoding
  it gives back the bytes.
\<close>

lemma base64_roundtrip_within_limit:
  "length b \<le> limit \<Longrightarrow>
   \<exists>s. bytesToBase64 limit b = Inr s \<and> base64ToBytes s = Inr b"
  by (simp add: base64ToBytes_def bytesToBase64_def atob_btoa bytes_binary_string del: map_map)

text \<open>
  Claim C9 (for every byte sequence, decoding the base64 encoding gives back the
  bytes). The claim does not hold on the code. \<open>bytesToBase64\<close> spreads the byte array
  into the arguments of one call, so a byte sequence with more bytes than the engine
  accepts arguments is not encoded at all: the call throws a \<open>RangeError\<close>. Whatever
  the limit is, the sequence of one more zero byte than the limit fails.
\<close>

theorem bytesToBase64_beyond_limit:
  "bytesToBase64 limit (replicate (Suc limit) 0)
     = Inl (RangeError ''Maximum call stack size exceeded'')"
  by (simp add: bytesToBase64_def)

section \<open>Properties of \<open>runCode\<close>\<close>

lemma write_input_keeps:
  "write_input f s = Inr s' \<Longrightarrow>
     final_expression (res s') = final_expression (res s)
     \<and> output_files (res s') = output_files (res s)
     \<and> outs s' = outs s \<and> errs s' = errs s"
  by (auto simp: write_input_def split: if_splits sum.splits)

lemma forEach_files_keeps:
  "forEach_files files s = (thrown, s') \<Longrightarrow>
     final_expression (res s') = final_expression (res s)
     \<and> output_files (res s') = output_files (res s)
     \<and> outs s' = outs s \<and> errs s' = errs s"
proof (induction files arbitrary: s)
  case Nil
  then show ?case by simp
next
  case (Cons f rest)
  show ?case
  proof (cases "write_input f s")
    case (Inl e)
    then show ?thesis using Cons.prems by simp
  next
    case (Inr s1)
    then have "forEach_files rest s1 = (thrown, s')" using Cons.prems by simp
    from Cons.IH [OF this] write_input_keeps [OF Inr] show ?thesis by simp
  qed
qed

lemma write_input_wellformed:
  "filename f \<noteq> None \<Longrightarrow> b64_data f \<noteq> None \<Longrightarrow> write_input f s = Inr s' \<Longrightarrow> res s' = res s"
  by (auto simp: write_input_def split: sum.splits)

lemma forEach_files_wellformed:
  "\<forall>f\<in>set files. filename f \<noteq> None \<and> b64_data f \<noteq> None \<Longrightarrow>
   forEach_files files s = (thrown, s') \<Longrightarrow> res s' = res s"
proof (induction files arbitrary: s)
  case Nil
  then show ?case by simp
next
  case (Cons f rest)
  show ?case
  proof (cases "write_input f s")
    case (Inl e)
    then show ?thesis using Cons.prems by simp
  next
    case (Inr s1)
    then have "forEach_files rest s1 = (thrown, s')" using Cons.prems by simp
    moreover have "\<forall>f\<in>set rest. filename f \<noteq> None \<and> b64_data f \<noteq> None" using Cons.prems by simp
    ultimately have "res s' = res s1" using Cons.IH by blast
    moreover have "res s1 = res s" using write_input_wellformed [OF _ _ Inr] Cons.prems(1) by simp
    ultimately show ?thesis by simp
  qed
qed

lemma map_of_set_entry: "map_of (set_entry k v es) k = Some v"
  by (induction es) auto

lemma node_at_write_at: "write_at cs d n = Inr n' \<Longrightarrow> node_at cs n' = Some (File d)"
proof (induction cs d n arbitrary: n' rule: write_at.induct)
  case (3 c d es)
  then show ?case by (auto simp: map_of_set_entry split: option.splits node.splits)
next
  case (4 c c' cs d es)
  then show ?case by (auto simp: map_of_set_entry split: option.splits sum.splits)
qed simp_all

lemma read_after_write: "FS_writeFile path d fs = Inr fs' \<Longrightarrow> FS_readFile path fs' = Inr d"
  by (simp add: FS_writeFile_def FS_readFile_def node_at_write_at)

lemma try_block_thrown_res:
  assumes "try_block eng env code files = (Some e, s)"
  shows "final_expression (res s) = None \<and> output_files (res s) = None"
proof (cases "pyodide env")
  case None
  then show ?thesis using assms by (auto simp: try_block_def initial_state_def)
next
  case (Some fs0)
  show ?thesis
  proof (cases "loadPackagesFromImports eng code")
    case (Some e')
    then show ?thesis using assms \<open>pyodide env = Some fs0\<close>
      by (auto simp: try_block_def initial_state_def)
  next
    case None
    obtain t s1 where fe: "forEach_files files (initial_state env fs0 :: 'a run_state) = (t, s1)"
      by (cases "forEach_files files (initial_state env fs0 :: 'a run_state)") auto
    from forEach_files_keeps [OF fe]
    have k: "final_expression (res s1) = None" "output_files (res s1) = None"
      by (simp_all add: initial_state_def)
    show ?thesis
    proof (cases t)
      case (Some e1)
      then show ?thesis using assms \<open>pyodide env = Some fs0\<close> None fe k
        by (auto simp: try_block_def)
    next
      case None2: None
      then have "run_and_collect eng env code files s1 = (Some e, s)"
        using assms \<open>pyodide env = Some fs0\<close> None fe by (simp add: try_block_def)
      then show ?thesis using k
        by (auto simp: run_and_collect_def Let_def split: sum.splits)
    qed
  qed
qed

text \<open>
  Claim C1 (exactly one of: \<open>error\<close> present, \<open>success\<close> true). The claim does not
  hold on the code. For the program \<open>1 + 1\<close> and one input file entry without a
  filename, the callback of \<open>forEach\<close> sets the parsing error and \<open>success = false\<close>,
  but its \<open>return\<close> leaves only the callback: the program still runs, and the last
  assignment of the \<open>try\<close> block sets \<open>success\<close> back to true. The response has both.
\<close>

theorem runCode_error_and_success_together:
  \<open>success (fst (runCode demo_engine demo_env 10 26 ''1 + 1''
               [\<lparr>filename = None, b64_data = Some ''aGk=''\<rparr>])) = True
   \<and> error (fst (runCode demo_engine demo_env 10 26 ''1 + 1''
               [\<lparr>filename = None, b64_data = Some ''aGk=''\<rparr>]))
       = Some \<lparr>type = Some ''parsing'',
               message = ''file data is missing for: {"b64_data":"aGk="}''\<rparr>\<close>
  by code_simp

text \<open>
  Claim C2 as stated (a malformed entry makes \<open>runCode\<close> abort before any file is
  written and before the code runs) fails. With a well-formed entry before and after
  the malformed one, both files are written, the program runs (it creates \<open>b.txt\<close> and
  yields 2), and the response reports success next to the parsing error.
\<close>

theorem runCode_malformed_entry_not_aborted:
  \<open>fst (runCode demo_engine demo_env 10 26 ''open("b.txt", "w").write("hi")''
          [\<lparr>filename = Some ''a.txt'', b64_data = Some ''aGk=''\<rparr>,
           \<lparr>filename = None, b64_data = Some ''aGk=''\<rparr>,
           \<lparr>filename = Some ''c.txt'', b64_data = Some ''aGk=''\<rparr>])
     = \<lparr>success = True, final_expression = Some 2,
        output_files = Some [(''b.txt'', ''aGk='')],
        error = Some \<lparr>type = Some ''parsing'',
                      message = ''file data is missing for: {"b64_data":"aGk="}''\<rparr>,
        std_out = Some [], std_err = Some [], code_runtime = Some 16\<rparr>
   \<and> pyodide (snd (runCode demo_engine demo_env 10 26 ''open("b.txt", "w").write("hi")''
          [\<lparr>filename = Some ''a.txt'', b64_data = Some ''aGk=''\<rparr>,
           \<lparr>filename = None, b64_data = Some ''aGk=''\<rparr>,
           \<lparr>filename = Some ''c.txt'', b64_data = Some ''aGk=''\<rparr>]))
     = Some (Dir [(''tmp'', Dir []),
                  (''home'', Dir [(''earth'',
                     Dir [(''seed.txt'', File seed_bytes), (''a.txt'', File hi_bytes),
                          (''c.txt'', File hi_bytes), (''b.txt'', File hi_bytes)])])])\<close>
  by code_simp

text \<open>
  Claim C3 as stated (a filename with path-escaping segments is rejected with a
  ParsingError and nothing is written outside the home directory) fails: the entry
  \<open>../evil.txt\<close> is accepted without any error and its bytes are written at
  \<open>/home/evil.txt\<close>, beside the home directory \<open>/home/earth\<close>, not inside it.
\<close>

theorem runCode_escaping_filename_written:
  \<open>fst (runCode demo_engine demo_env 10 26 ''1 + 1''
          [\<lparr>filename = Some ''../evil.txt'', b64_data = Some ''aGk=''\<rparr>])
     = \<lparr>success = True, final_expression = Some 2, output_files = Some [], error = None,
        std_out = Some [], std_err = Some [], code_runtime = Some 16\<rparr>
   \<and> pyodide (snd (runCode demo_engine demo_env 10 26 ''1 + 1''
          [\<lparr>filename = Some ''../evil.txt'', b64_data = Some ''aGk=''\<rparr>]))
     = Some (Dir [(''tmp'', Dir []),
                  (''home'', Dir [(''earth'', Dir [(''seed.txt'', File seed_bytes)]),
                                  (''evil.txt'', File hi_bytes)])])\<close>
  by code_simp

text \<open>
  Claim C3, amended. \<open>runCode\<close> has no check of the filename. For a list of entries
  that all have a filename and a payload, the loop over the input files leaves the
  result object untouched, so no ParsingError comes from any filename. For an entry
  with filename \<open>name\<close> and payload \<open>payload\<close>, whatever segments \<open>name\<close> contains,
  the callback either throws the error of the base64 decoder or of \<open>FS.writeFile\<close>, or
  it writes the decoded bytes at \<open>join2 home name\<close>, where they can be read back.
\<close>

theorem input_files_written_verbatim:
  "((\<forall>f\<in>set files. filename f \<noteq> None \<and> b64_data f \<noteq> None)
      \<longrightarrow> res (snd (forEach_files files s)) = res s)
   \<and> (filename f = Some name \<and> b64_data f = Some payload \<longrightarrow>
        (case write_input f s of
           Inl e \<Rightarrow>
             base64ToBytes payload = Inl e
             \<or> (\<exists>bytes. base64ToBytes payload = Inr bytes
                   \<and> FS_writeFile (join2 pythonEnvironmentHomeDir name) bytes (fsys s) = Inl e)
         | Inr s' \<Rightarrow>
             res s' = res s
             \<and> (\<exists>bytes. base64ToBytes payload = Inr bytes
                   \<and> FS_writeFile (join2 pythonEnvironmentHomeDir name) bytes (fsys s) = Inr (fsys s')
                   \<and> FS_readFile (join2 pythonEnvironmentHomeDir name) (fsys s') = Inr bytes)))"
proof (intro conjI impI)
  assume wf: "\<forall>f\<in>set files. filename f \<noteq> None \<and> b64_data f \<noteq> None"
  obtain t s' where fe: "forEach_files files s = (t, s')"
    by (cases "forEach_files files s") auto
  from forEach_files_wellformed [OF wf fe] fe
  show "res (snd (forEach_files files s)) = res s" by simp
next
  assume a: "filename f = Some name \<and> b64_data f = Some payload"
  show "case write_input f s of
           Inl e \<Rightarrow>
             base64ToBytes payload = Inl e
             \<or> (\<exists>bytes. base64ToBytes payload = Inr bytes
                   \<and> FS_writeFile (join2 pythonEnvironmentHomeDir name) bytes (fsys s) = Inl e)
         | Inr s' \<Rightarrow>
             res s' = res s
             \<and> (\<exists>bytes. base64ToBytes payload = Inr bytes
                   \<and> FS_writeFile (join2 pythonEnvironmentHomeDir name) bytes (fsys s) = Inr (fsys s')
                   \<and> FS_readFile (join2 pythonEnvironmentHomeDir name) (fsys s') = Inr bytes)"
  proof (cases "base64ToBytes payload")
    case (Inl e)
    then show ?thesis using a by (simp add: write_input_def)
  next
    case (Inr bytes)
    show ?thesis
    proof (cases "FS_writeFile (join2 pythonEnvironmentHomeDir name) bytes (fsys s)")
      case (Inl e)
      then show ?thesis using a Inr by (simp add: write_input_def)
    next
      case w: (Inr fs')
      from read_after_write [OF w] show ?thesis using a Inr w by (simp add: write_input_def)
    qed
  qed
qed

text \<open>
  The entry \<open>../evil.txt\<close> on a fresh instance: the joined path is \<open>/home/evil.txt\<close>
  and the bytes are found there after the callback.
\<close>

theorem input_files_written_verbatim_witness:
  \<open>filename \<lparr>filename = Some ''../evil.txt'', b64_data = Some ''aGk=''\<rparr> \<noteq> None
   \<and> b64_data \<lparr>filename = Some ''../evil.txt'', b64_data = Some ''aGk=''\<rparr> \<noteq> None
   \<and> res (snd (forEach_files [\<lparr>filename = Some ''../evil.txt'', b64_data = Some ''aGk=''\<rparr>]
                  (initial_state demo_env demo_boot :: int run_state)))
       = res (initial_state demo_env demo_boot :: int run_state)
   \<and> join2 pythonEnvironmentHomeDir ''../evil.txt'' = ''/home/evil.txt''
   \<and> write_input \<lparr>filename = Some ''../evil.txt'', b64_data = Some ''aGk=''\<rparr>
         (initial_state demo_env demo_boot :: int run_state)
       = Inr ((initial_state demo_env demo_boot)
                \<lparr>fsys := Dir [(''tmp'', Dir []),
                               (''home'', Dir [(''earth'', Dir []), (''evil.txt'', File hi_bytes)])]\<rparr>)
   \<and> FS_readFile ''/home/evil.txt''
         (Dir [(''tmp'', Dir []),
               (''home'', Dir [(''earth'', Dir []), (''evil.txt'', File hi_bytes)])])
       = Inr hi_bytes\<close>
proof -
  let ?f = "\<lparr>filename = Some ''../evil.txt'', b64_data = Some ''aGk=''\<rparr>"
  let ?s = "initial_state demo_env demo_boot :: int run_state"
  let ?fs = "Dir [(''tmp'', Dir []),
                  (''home'', Dir [(''earth'', Dir []), (''evil.txt'', File hi_bytes)])]"
  have j: "join2 pythonEnvironmentHomeDir ''../evil.txt'' = ''/home/evil.txt''"
    by code_simp
  have d: "base64ToBytes ''aGk='' = Inr hi_bytes"
    by code_simp
  have w: "write_input ?f ?s = Inr (?s\<lparr>fsys := ?fs\<rparr>)"
    by code_simp
  from input_files_written_verbatim [of "[?f]" ?s ?f "''../evil.txt''" "''aGk=''"]
  have a: "res (snd (forEach_files [?f] ?s)) = res ?s"
    and b: "case write_input ?f ?s of
           Inl e \<Rightarrow>
             base64ToBytes ''aGk='' = Inl e
             \<or> (\<exists>bytes. base64ToBytes ''aGk='' = Inr bytes
                   \<and> FS_writeFile (join2 pythonEnvironmentHomeDir ''../evil.txt'') bytes (fsys ?s) = Inl e)
         | Inr s' \<Rightarrow>
             res s' = res ?s
             \<and> (\<exists>bytes. base64ToBytes ''aGk='' = Inr bytes
                   \<and> FS_writeFile (join2 pythonEnvironmentHomeDir ''../evil.txt'') bytes (fsys ?s) = Inr (fsys s')
                   \<and> FS_readFile (join2 pythonEnvironmentHomeDir ''../evil.txt'') (fsys s') = Inr bytes)"
    by simp_all
  from b have "FS_readFile ''/home/evil.txt'' ?fs = Inr hi_bytes"
    by (simp add: w j d)
  with w a j show ?thesis by simp
qed


lemma runCode_thrown:
  assumes "try_block eng env code files = (Some e, s)"
  shows "fst (runCode eng env startCode endCode code files)
       = \<lparr>success = False, final_expression = None, output_files = None,
          error = Some \<lparr>type = error_type e, message = enrich code (error_toString e)\<rparr>,
          std_out = Some (outs s), std_err = Some (errs s),
          code_runtime = Some (endCode - startCode)\<rparr>"
proof -
  from try_block_thrown_res [OF assms]
  have "final_expression (res s) = None" "output_files (res s) = None" by simp_all
  then show ?thesis using assms
    by (cases "res s") (simp add: runCode_def)
qed

lemma try_block_run_raises:
  assumes "pyodide env = Some fs0" "loadPackagesFromImports eng code = None"
    and "forEach_files files (initial_state env fs0) = (None, s1 :: 'v run_state)"
    and "outcome (runPythonAsync (eng :: 'v engine) code (fsys s1)) = Inl e"
  shows "fst (try_block eng env code files) = Some e"
  using assms by (simp add: try_block_def run_and_collect_def Let_def)

text \<open>
  Claim C4, amended. When anything is thrown inside the \<open>try\<close> block, the response is
  \<open>success = false\<close> with \<open>error.type\<close> the type of the thrown error and
  \<open>error.message\<close> its enriched text; \<open>final_expression\<close> and \<open>output_files\<close> are
  absent, because the collection of the output files is part of the \<open>try\<close> block and
  comes after the run. A failure raised by \<open>runPythonAsync\<close> (packages loaded, input
  files written) is such a throw.
\<close>

theorem runCode_failure_response:
  "(try_block eng env code files = (Some e, s) \<longrightarrow>
      fst (runCode eng env startCode endCode code files)
        = \<lparr>success = False, final_expression = None, output_files = None,
           error = Some \<lparr>type = error_type e, message = enrich code (error_toString e)\<rparr>,
           std_out = Some (outs s), std_err = Some (errs s),
           code_runtime = Some (endCode - startCode)\<rparr>)
   \<and> (pyodide env = Some fs0 \<and> loadPackagesFromImports eng code = None
        \<and> forEach_files files (initial_state env fs0) = (None, s1 :: 'v run_state)
        \<and> outcome (runPythonAsync (eng :: 'v engine) code (fsys s1)) = Inl e'
      \<longrightarrow> fst (try_block eng env code files) = Some e')"
  using runCode_thrown [of eng env code files e s startCode endCode]
    try_block_run_raises [of env fs0 eng code files s1 e']
  by blast

text \<open>
  The program that writes \<open>part.txt\<close> and then divides by zero on line 2.
\<close>

theorem runCode_failure_response_witness:
  \<open>try_block demo_engine demo_env part_program []
     = (Some zero_division,
        (initial_state demo_env demo_fs)\<lparr>fsys := part_fs\<rparr>)
   \<and> fst (runCode demo_engine demo_env 10 26 part_program [])
     = \<lparr>success = False, final_expression = None, output_files = None,
        error = Some \<lparr>type = Some ''ZeroDivisionError'',
                      message = error_toString zero_division @ [newline, newline]
                        @ ''Code context:'' @ [newline]
                        @ ''1: open("part.txt", "w").write("hi")'' @ [newline] @ ''2: 1/0''\<rparr>,
        std_out = Some [], std_err = Some [], code_runtime = Some 16\<rparr>
   \<and> pyodide demo_env = Some demo_fs
   \<and> forEach_files [] (initial_state demo_env demo_fs :: int run_state)
       = (None, initial_state demo_env demo_fs)
   \<and> outcome (runPythonAsync demo_engine part_program demo_fs) = Inl zero_division
   \<and> fst (try_block demo_engine demo_env part_program []) = Some zero_division\<close>
proof -
  let ?s = "(initial_state demo_env demo_fs)\<lparr>fsys := part_fs\<rparr> :: int run_state"
  have t: "try_block demo_engine demo_env part_program [] = (Some zero_division, ?s)"
    by code_simp
  have p: "pyodide demo_env = Some demo_fs" by code_simp
  have l: "loadPackagesFromImports demo_engine part_program = None" by code_simp
  have f: "forEach_files [] (initial_state demo_env demo_fs :: int run_state)
             = (None, initial_state demo_env demo_fs)" by simp
  have o: "outcome (runPythonAsync demo_engine part_program demo_fs) = Inl zero_division"
    by code_simp
  have o': "outcome (runPythonAsync demo_engine part_program
                       (fsys (initial_state demo_env demo_fs :: int run_state))) = Inl zero_division"
    using o by (simp add: initial_state_def)
  have m: \<open>enrich part_program (error_toString zero_division)
           = error_toString zero_division @ [newline, newline]
               @ ''Code context:'' @ [newline]
               @ ''1: open("part.txt", "w").write("hi")'' @ [newline] @ ''2: 1/0''\<close>
    by code_simp
  have oe: "outs ?s = []" "errs ?s = []" by code_simp+
  have ty: "error_type zero_division = Some ''ZeroDivisionError''" by code_simp
  from runCode_failure_response [of demo_engine demo_env part_program "[]" zero_division ?s
         10 26 demo_fs "initial_state demo_env demo_fs" zero_division] t p l f o'
  have r: "fst (runCode demo_engine demo_env 10 26 part_program [])
        = \<lparr>success = False, final_expression = None, output_files = None,
           error = Some \<lparr>type = error_type zero_division,
                         message = enrich part_program (error_toString zero_division)\<rparr>,
           std_out = Some (outs ?s), std_err = Some (errs ?s),
           code_runtime = Some (26 - 10)\<rparr>"
    and q: "fst (try_block demo_engine demo_env part_program []) = Some zero_division"
    by blast+
  show ?thesis using t r q p f o by (simp add: m oe ty)
qed

text \<open>
  Claim C4 as stated (after a failure the response still holds the output files
  collected from the home directory) fails: the program has written \<open>part.txt\<close> before
  it failed, the file is in the sandbox and the collection would find it, but the
  response has no \<open>output_files\<close>.
\<close>

theorem runCode_failure_without_output_files:
  \<open>success (fst (runCode demo_engine demo_env 10 26 part_program [])) = False
   \<and> output_files (fst (runCode demo_engine demo_env 10 26 part_program [])) = None
   \<and> pyodide (snd (runCode demo_engine demo_env 10 26 part_program [])) = Some part_fs
   \<and> FS_readFile ''/home/earth/part.txt'' part_fs = Inr hi_bytes
   \<and> collect_new_files (max_arguments demo_engine) demo_env [] part_fs
       = Inr [(''part.txt'', ''aGk='')]\<close>
  by code_simp

lemma forEach_files_append:
  "forEach_files (before @ rest) s =
     (case forEach_files before s of
        (Some e, s1) \<Rightarrow> (Some e, s1)
      | (None, s1) \<Rightarrow> forEach_files rest s1)"
  by (induction before arbitrary: s) (auto split: sum.splits)

text \<open>
  Claim C2, amended. The check for a missing filename or payload is made inside the
  loop that writes the input files, entry by entry. The entries before a malformed
  one are therefore processed first (written, unless one of them throws); when the
  loop reaches the malformed entry it writes nothing for it and records
  \<open>success = false\<close> and the parsing error whose message names the entry.
\<close>

theorem malformed_entry_recorded_in_loop:
  "filename f = None \<or> b64_data f = None \<Longrightarrow>
   forEach_files (before @ [f]) s =
     (case forEach_files before s of
        (Some e, s1) \<Rightarrow> (Some e, s1)
      | (None, s1) \<Rightarrow>
          (None,
           s1\<lparr>res := (res s1)\<lparr>success := False,
                     error := Some \<lparr>type = Some ''parsing'',
                                    message = ''file data is missing for: '' @ JSON_stringify f\<rparr>\<rparr>\<rparr>))"
  by (auto simp: forEach_files_append write_input_def split: prod.splits option.splits)

text \<open>
  The entry \<open>a.txt\<close> followed by an entry without filename: \<open>a.txt\<close> is written, then
  the parsing error is recorded.
\<close>

theorem malformed_entry_recorded_in_loop_witness:
  \<open>filename no_name = None
   \<and> forEach_files [a_txt] (initial_state demo_env demo_fs :: int run_state)
       = (None, (initial_state demo_env demo_fs)\<lparr>fsys := a_fs\<rparr>)
   \<and> forEach_files ([a_txt] @ [no_name]) (initial_state demo_env demo_fs :: int run_state)
       = (None,
          (initial_state demo_env demo_fs)
            \<lparr>res := \<lparr>success = False, final_expression = None, output_files = None,
                      error = Some \<lparr>type = Some ''parsing'',
                                     message = ''file data is missing for: {"b64_data":"aGk="}''\<rparr>,
                      std_out = None, std_err = None, code_runtime = None\<rparr>,
             fsys := a_fs\<rparr>)\<close>
proof -
  let ?s = "initial_state demo_env demo_fs :: int run_state"
  have n: "filename no_name = None" by (simp add: no_name_def)
  have b: "forEach_files [a_txt] ?s = (None, ?s\<lparr>fsys := a_fs\<rparr>)" by code_simp
  have j: \<open>JSON_stringify no_name = ''{"b64_data":"aGk="}''\<close> by code_simp
  from malformed_entry_recorded_in_loop [of no_name "[a_txt]" ?s] n
  have "forEach_files ([a_txt] @ [no_name]) ?s =
     (case forEach_files [a_txt] ?s of
        (Some e, s1) \<Rightarrow> (Some e, s1)
      | (None, s1) \<Rightarrow>
          (None,
           s1\<lparr>res := (res s1)\<lparr>success := False,
                     error := Some \<lparr>type = Some ''parsing'',
                                    message = ''file data is missing for: '' @ JSON_stringify no_name\<rparr>\<rparr>\<rparr>))"
    by simp
  then show ?thesis using n b by (simp add: j initial_state_def)
qed

text \<open>
  When every entry has a filename and a payload, the response has an error exactly
  when \<open>success\<close> is false: the defect shown for claim C1 needs a malformed entry.
\<close>

lemma try_block_done_wellformed:
  assumes "\<forall>f\<in>set files. filename f \<noteq> None \<and> b64_data f \<noteq> None"
    and "try_block eng env code files = (None, s)"
  shows "success (res s) = True \<and> error (res s) = None"
proof (cases "pyodide env")
  case None
  then show ?thesis using assms(2) by (simp add: try_block_def)
next
  case (Some fs0)
  show ?thesis
  proof (cases "loadPackagesFromImports eng code")
    case (Some e)
    then show ?thesis using assms(2) \<open>pyodide env = Some fs0\<close> by (simp add: try_block_def)
  next
    case None
    obtain t s1 where fe: "forEach_files files (initial_state env fs0 :: 'a run_state) = (t, s1)"
      by (cases "forEach_files files (initial_state env fs0 :: 'a run_state)") auto
    from forEach_files_wellformed [OF assms(1) fe]
    have e1: "error (res s1) = None" by (simp add: initial_state_def)
    show ?thesis
    proof (cases t)
      case (Some e)
      then show ?thesis using assms(2) \<open>pyodide env = Some fs0\<close> None fe by (simp add: try_block_def)
    next
      case None2: None
      then have "run_and_collect eng env code files s1 = (None, s)"
        using assms(2) \<open>pyodide env = Some fs0\<close> None fe by (simp add: try_block_def)
      then show ?thesis using e1
        by (auto simp: run_and_collect_def Let_def split: sum.splits)
    qed
  qed
qed

lemma runCode_error_xor_success:
  assumes "\<forall>f\<in>set files. filename f \<noteq> None \<and> b64_data f \<noteq> None"
  shows "(error (fst (runCode eng env startCode endCode code files)) = None)
           = success (fst (runCode eng env startCode endCode code files))"
proof -
  obtain thrown s where t: "try_block eng env code files = (thrown, s)"
    by (cases "try_block eng env code files") auto
  show ?thesis
  proof (cases thrown)
    case (Some e)
    then show ?thesis using runCode_thrown [OF t [unfolded Some]] by simp
  next
    case None
    from try_block_done_wellformed [OF assms t [unfolded None]] t None
    show ?thesis by (simp add: runCode_def)
  qed
qed

section \<open>Properties of the request handler\<close>

lemma poll_never:
  "\<forall>k\<le>100. pyodide_at k = None \<Longrightarrow> n \<le> 100 \<Longrightarrow> poll pyodide_at n = 100"
proof (induction pyodide_at n rule: poll.induct)
  case (1 pyodide_at max_tries)
  show ?case
  proof (cases "max_tries < 100")
    case True
    then have "pyodide_at max_tries = None" using 1(2) by simp
    moreover have "poll pyodide_at (Suc max_tries) = 100"
      using 1 True calculation by simp
    ultimately show ?thesis using True by (subst poll.simps) simp
  next
    case False
    then have "max_tries = 100" using 1(3) by simp
    then show ?thesis by (subst poll.simps) simp
  qed
qed

lemma waitForReady_never:
  assumes "\<forall>k\<le>100. pyodide_at k = None"
  shows "waitForReady pyodide_at = Inl (Rejected ''pyodide is still not loaded after waiting'')"
proof -
  have "poll pyodide_at 0 = 100" using poll_never [OF assms] by simp
  moreover have "pyodide_at 0 = None" "pyodide_at 100 = None" using assms by simp_all
  ultimately show ?thesis by (simp add: waitForReady_def)
qed

lemma waitForReady_ready:
  "waitForReady pyodide_at = Inr waited \<Longrightarrow> pyodide_at waited \<noteq> None"
  by (auto simp: waitForReady_def Let_def split: if_splits)

text \<open>
  Claim C5, amended. Once the engine is ready, a request without code (or with blank
  code) is answered with \<open>success = false\<close> and the parsing error, and nothing leaves
  the handler. Once the engine is ready and every file entry has a payload, an error
  thrown while \<open>runCode\<close> executes the request is answered with \<open>success = false\<close> and
  that error in the response. A readiness timeout is not captured: when \<open>this.pyodide\<close>
  is still unset after the 100 waits, nothing is written and the rejection of
  \<open>waitForReady\<close> leaves \<open>runRequest\<close>.
\<close>

theorem runRequest_captured_errors:
  "(waitForReady pyodide_at = Inr waited
      \<and> (body_code req = None \<or> trim (the (body_code req)) = [])
    \<longrightarrow> sent (runRequest eng env pyodide_at startCode endCode req)
          = Some \<lparr>success = False, final_expression = None, output_files = None,
                  error = Some \<lparr>type = Some ''parsing'', message = ''no code provided''\<rparr>,
                  std_out = None, std_err = None, code_runtime = None\<rparr>
        \<and> escaped (runRequest eng env pyodide_at startCode endCode req) = None)
   \<and> (waitForReady pyodide_at = Inr waited
      \<and> body_code req = Some code \<and> trim code \<noteq> []
      \<and> files = (case body_files req of None \<Rightarrow> [] | Some fl \<Rightarrow> fl)
      \<and> (\<forall>f\<in>set files. b64_data f \<noteq> None)
      \<and> try_block eng (env\<lparr>pyodide := pyodide_at waited\<rparr>) code files = (Some e, s)
    \<longrightarrow> sent (runRequest eng env pyodide_at startCode endCode req)
          = Some \<lparr>success = False, final_expression = None, output_files = None,
                  error = Some \<lparr>type = error_type e,
                                message = enrich code (error_toString e)\<rparr>,
                  std_out = Some (outs s), std_err = Some (errs s),
                  code_runtime = Some (endCode - startCode)\<rparr>)
   \<and> ((\<forall>k\<le>100. pyodide_at k = None)
    \<longrightarrow> sent (runRequest eng env pyodide_at startCode endCode req) = None
        \<and> escaped (runRequest eng env pyodide_at startCode endCode req)
            = Some (Rejected ''pyodide is still not loaded after waiting''))"
proof (intro conjI impI)
  assume a: "waitForReady pyodide_at = Inr waited
      \<and> (body_code req = None \<or> trim (the (body_code req)) = [])"
  then show "sent (runRequest eng env pyodide_at startCode endCode req)
          = Some \<lparr>success = False, final_expression = None, output_files = None,
                  error = Some \<lparr>type = Some ''parsing'', message = ''no code provided''\<rparr>,
                  std_out = None, std_err = None, code_runtime = None\<rparr>"
    by (auto simp: runRequest_def Let_def)
  from a show "escaped (runRequest eng env pyodide_at startCode endCode req) = None"
    by (auto simp: runRequest_def Let_def)
next
  assume a: "waitForReady pyodide_at = Inr waited
      \<and> body_code req = Some code \<and> trim code \<noteq> []
      \<and> files = (case body_files req of None \<Rightarrow> [] | Some fl \<Rightarrow> fl)
      \<and> (\<forall>f\<in>set files. b64_data f \<noteq> None)
      \<and> try_block eng (env\<lparr>pyodide := pyodide_at waited\<rparr>) code files = (Some e, s)"
  then have t: "try_block eng (env\<lparr>pyodide := pyodide_at waited\<rparr>) code files = (Some e, s)"
    by blast
  obtain r env2 where rc: "runCode eng (env\<lparr>pyodide := pyodide_at waited\<rparr>) startCode endCode code files = (r, env2)"
    by (cases "runCode eng (env\<lparr>pyodide := pyodide_at waited\<rparr>) startCode endCode code files") auto
  from runCode_thrown [OF t, of startCode endCode] rc
  have r: "r = \<lparr>success = False, final_expression = None, output_files = None,
                  error = Some \<lparr>type = error_type e,
                                message = enrich code (error_toString e)\<rparr>,
                  std_out = Some (outs s), std_err = Some (errs s),
                  code_runtime = Some (endCode - startCode)\<rparr>" by simp
  have "sent (runRequest eng env pyodide_at startCode endCode req) = Some r"
    using a rc by (auto simp: runRequest_def Let_def split: prod.splits)
  then show "sent (runRequest eng env pyodide_at startCode endCode req)
          = Some \<lparr>success = False, final_expression = None, output_files = None,
                  error = Some \<lparr>type = error_type e,
                                message = enrich code (error_toString e)\<rparr>,
                  std_out = Some (outs s), std_err = Some (errs s),
                  code_runtime = Some (endCode - startCode)\<rparr>"
    using r by simp
next
  assume "\<forall>k\<le>100. pyodide_at k = None"
  from waitForReady_never [OF this]
  show "sent (runRequest eng env pyodide_at startCode endCode req) = None"
    by (simp add: runRequest_def)
next
  assume "\<forall>k\<le>100. pyodide_at k = None"
  from waitForReady_never [OF this]
  show "escaped (runRequest eng env pyodide_at startCode endCode req)
            = Some (Rejected ''pyodide is still not loaded after waiting'')"
    by (simp add: runRequest_def)
qed

text \<open>
  Claim C5 as stated (no per-request error escapes the handler, a readiness timeout
  included) fails: on an engine that never gets ready the handler writes no response
  and the rejection leaves it.
\<close>

theorem runRequest_timeout_escapes:
  "runRequest demo_engine new_environment (\<lambda>k. None) 10 26
     \<lparr>body_code = Some ''1 + 1'', body_files = None\<rparr>
   = \<lparr>sent = None,
      escaped = Some (Rejected ''pyodide is still not loaded after waiting''),
      env_after = new_environment\<rparr>"
  by code_simp

text \<open>
  Three requests: blank code on a ready engine; the failing program on an engine that
  is ready after three waits; any request on an engine that never gets ready.
\<close>

theorem runRequest_captured_errors_witness:
  \<open>waitForReady (\<lambda>k. Some demo_fs) = Inr 0
   \<and> trim [CHR '' '', newline] = []
   \<and> sent (runRequest demo_engine demo_env (\<lambda>k. Some demo_fs) 10 26
             \<lparr>body_code = Some [CHR '' '', newline], body_files = None\<rparr>)
       = Some \<lparr>success = False, final_expression = None, output_files = None,
               error = Some \<lparr>type = Some ''parsing'', message = ''no code provided''\<rparr>,
               std_out = None, std_err = None, code_runtime = None\<rparr>
   \<and> escaped (runRequest demo_engine demo_env (\<lambda>k. Some demo_fs) 10 26
             \<lparr>body_code = Some [CHR '' '', newline], body_files = None\<rparr>) = None
   \<and> waitForReady (\<lambda>k. if k < 3 then None else Some demo_fs) = Inr 3
   \<and> try_block demo_engine
         (new_environment\<lparr>pyodide := (\<lambda>k::nat. if k < 3 then None else Some demo_fs) 3\<rparr>)
         part_program []
       = (Some zero_division, (initial_state new_environment demo_fs)\<lparr>fsys := part_fs\<rparr>)
   \<and> sent (runRequest demo_engine new_environment (\<lambda>k. if k < 3 then None else Some demo_fs) 10 26
             \<lparr>body_code = Some part_program, body_files = None\<rparr>)
       = Some \<lparr>success = False, final_expression = None, output_files = None,
               error = Some \<lparr>type = Some ''ZeroDivisionError'',
                             message = enrich part_program (error_toString zero_division)\<rparr>,
               std_out = Some [], std_err = Some [], code_runtime = Some 16\<rparr>
   \<and> sent (runRequest demo_engine new_environment (\<lambda>k. None) 10 26
             \<lparr>body_code = Some ''1 + 1'', body_files = None\<rparr>) = None
   \<and> escaped (runRequest demo_engine new_environment (\<lambda>k. None) 10 26
             \<lparr>body_code = Some ''1 + 1'', body_files = None\<rparr>)
       = Some (Rejected ''pyodide is still not loaded after waiting'')\<close>
proof -
  let ?late = "\<lambda>k::nat. if k < 3 then None else Some demo_fs"
  let ?blank = "\<lparr>body_code = Some [CHR '' '', newline], body_files = None\<rparr>"
  let ?part = "\<lparr>body_code = Some part_program, body_files = None\<rparr>"
  let ?one = "\<lparr>body_code = Some ''1 + 1'', body_files = None\<rparr>"
  let ?s = "(initial_state new_environment demo_fs)\<lparr>fsys := part_fs\<rparr> :: int run_state"
  have w0: "waitForReady (\<lambda>k. Some demo_fs) = Inr 0" by (simp add: waitForReady_def)
  have tr: "trim [CHR '' '', newline] = []" by code_simp
  have w3: "waitForReady ?late = Inr 3" by code_simp
  have tp: "trim part_program \<noteq> []" by code_simp
  have tb: "try_block demo_engine (new_environment\<lparr>pyodide := ?late 3\<rparr>) part_program []
              = (Some zero_division, ?s)" by code_simp
  have oe: "outs ?s = []" "errs ?s = []" by code_simp+
  have ty: "error_type zero_division = Some ''ZeroDivisionError''" by code_simp
  note thm1 = runRequest_captured_errors [of "\<lambda>k. Some demo_fs" 0 ?blank demo_engine demo_env 10 26]
  note thm2 = runRequest_captured_errors [of ?late 3 ?part demo_engine new_environment 10 26
                 part_program "[]" zero_division ?s]
  note thm3 = runRequest_captured_errors [of "\<lambda>k. None" 0 ?one demo_engine new_environment 10 26]
  have a: "sent (runRequest demo_engine demo_env (\<lambda>k. Some demo_fs) 10 26 ?blank)
       = Some \<lparr>success = False, final_expression = None, output_files = None,
               error = Some \<lparr>type = Some ''parsing'', message = ''no code provided''\<rparr>,
               std_out = None, std_err = None, code_runtime = None\<rparr>"
    and b: "escaped (runRequest demo_engine demo_env (\<lambda>k. Some demo_fs) 10 26 ?blank) = None"
    using thm1 w0 tr by simp_all
  have c: "sent (runRequest demo_engine new_environment ?late 10 26 ?part)
       = Some \<lparr>success = False, final_expression = None, output_files = None,
               error = Some \<lparr>type = error_type zero_division,
                             message = enrich part_program (error_toString zero_division)\<rparr>,
               std_out = Some (outs ?s), std_err = Some (errs ?s),
               code_runtime = Some (26 - 10)\<rparr>"
    using thm2 w3 tp tb by simp
  have d: "sent (runRequest demo_engine new_environment (\<lambda>k. None) 10 26 ?one) = None"
    and e: "escaped (runRequest demo_engine new_environment (\<lambda>k. None) 10 26 ?one)
       = Some (Rejected ''pyodide is still not loaded after waiting'')"
    using thm3 by simp_all
  show ?thesis using w0 tr a b w3 tb c d e by (simp add: oe ty)
qed

section \<open>Properties of the request serializer\<close>

lemma queued_upd: "t \<notin> set ts \<Longrightarrow> queued (ph(t \<mapsto> x)) p ts = queued ph p ts"
  by (induction ts arbitrary: p) auto

lemma queued_snoc:
  "queued ph p (ts @ [t]) = (queued ph p ts \<and> ph t = Some (Waiting (last (p # ts))))"
  by (induction ts arbitrary: p) auto

lemma queued_waiting:
  "queued ph p ts \<Longrightarrow> t \<in> set ts \<Longrightarrow> \<exists>q. ph t = Some (Waiting q) \<and> q \<in> set (p # ts)"
  by (induction ts arbitrary: p) auto

lemma queued_not_running:
  "queued ph p ts \<Longrightarrow> filter (\<lambda>t. ph t \<noteq> Some Running) ts = ts"
  by (induction ts arbitrary: p) auto

lemma lock_inv_head:
  assumes "lock_inv s" "locks s = h # rest"
  shows "phase_of s h = Some Running
         \<or> (\<exists>p. phase_of s h = Some (Waiting p) \<and> p \<in> set (unlocked s))"
    and "queued (phase_of s) h rest"
proof -
  from assms(1) have "head_ready s" unfolding lock_inv_def by blast
  then show "phase_of s h = Some Running
         \<or> (\<exists>p. phase_of s h = Some (Waiting p) \<and> p \<in> set (unlocked s))"
    and "queued (phase_of s) h rest"
    unfolding head_ready_def using assms(2) by simp_all
qed

lemma running_is_head:
  assumes "lock_inv s" "phase_of s t = Some Running"
  shows "\<exists>rest. locks s = t # rest"
proof -
  from assms have mem: "t \<in> set (locks s)" by (auto simp: lock_inv_def)
  then obtain h rest where l: "locks s = h # rest" by (cases "locks s") auto
  have q: "queued (phase_of s) h rest" using lock_inv_head [OF assms(1) l] by simp
  have "t \<notin> set rest"
  proof
    assume "t \<in> set rest"
    from queued_waiting [OF q this] assms(2) show False by auto
  qed
  then show ?thesis using mem l by auto
qed

lemma resumable_is_head:
  assumes "lock_inv s" "phase_of s t = Some (Waiting p)" "p \<in> set (unlocked s)"
  shows "\<exists>rest. locks s = t # rest"
proof -
  from assms have mem: "t \<in> set (locks s)" by (auto simp: lock_inv_def)
  then obtain h rest where l: "locks s = h # rest" by (cases "locks s") auto
  have q: "queued (phase_of s) h rest" using lock_inv_head [OF assms(1) l] by simp
  have "t \<notin> set rest"
  proof
    assume "t \<in> set rest"
    from queued_waiting [OF q this] assms(2) have "p \<in> set (locks s)" using l by auto
    then have "phase_of s p = Some Running \<or> (\<exists>q. phase_of s p = Some (Waiting q))"
      using assms(1) by (simp add: lock_inv_def)
    moreover have "\<exists>ok. phase_of s p = Some (Settled ok)"
      using assms(1,3) by (simp add: lock_inv_def)
    ultimately show False by auto
  qed
  then show ?thesis using mem l by auto
qed

lemma lock_inv_init: "lock_inv no_locks"
  by (simp add: lock_inv_def no_locks_def head_ready_def)


lemma lock_inv_Acquire:
  assumes inv: "lock_inv s" and st: "step (Acquire t) s = Some s'"
  shows "lock_inv s'"
proof -
  from st have fresh: "phase_of s t = None" by (auto split: if_splits)
  then have nl: "t \<notin> set (locks s)" and nu: "t \<notin> set (unlocked s)"
    using inv by (auto simp: lock_inv_def)
  show ?thesis
  proof (cases "locks s")
    case Nil
    then have s': "s' = s\<lparr>locks := [t], phase_of := (phase_of s)(t \<mapsto> Running),
                         acquired := acquired s @ [t], started := started s @ [t]\<rparr>"
      using st fresh by (auto simp: Let_def)
    show ?thesis using inv Nil fresh nu
      unfolding s' lock_inv_def head_ready_def by auto
  next
    case (Cons h rest)
    then have s': "s' = s\<lparr>locks := locks s @ [t],
                         phase_of := (phase_of s)(t \<mapsto> Waiting (last (locks s))),
                         acquired := acquired s @ [t]\<rparr>"
      using st fresh by (auto simp: Let_def nth_append last_conv_nth)
    have q: "queued (phase_of s) h rest" and
      hd: "phase_of s h = Some Running
           \<or> (\<exists>p. phase_of s h = Some (Waiting p) \<and> p \<in> set (unlocked s))"
      using lock_inv_head [OF inv Cons] by simp_all
    have th: "t \<noteq> h" "t \<notin> set rest" using nl Cons by auto
    have q': "queued ((phase_of s)(t \<mapsto> Waiting (last (h # rest)))) h (rest @ [t])"
      using q th by (simp add: queued_snoc queued_upd)
    have hr: "head_ready s'"
      unfolding s' head_ready_def using Cons q' hd th by auto
    have d: "distinct (locks s')" using inv nl unfolding s' by (simp add: lock_inv_def)
    have m: "\<forall>u. u \<in> set (locks s') \<longleftrightarrow>
               (phase_of s' u = Some Running \<or> (\<exists>p. phase_of s' u = Some (Waiting p)))"
      using inv unfolding s' by (auto simp: lock_inv_def)
    have u: "\<forall>u. u \<in> set (unlocked s') \<longleftrightarrow> (\<exists>ok. phase_of s' u = Some (Settled ok))"
      using inv nu unfolding s' by (auto simp: lock_inv_def)
    have "filter (\<lambda>u. phase_of s' u \<noteq> Some Running) (locks s')
            = filter (\<lambda>u. phase_of s u \<noteq> Some Running) (locks s) @ [t]"
      unfolding s' using nl by (auto intro: filter_cong)
    then have a: "acquired s' = started s' @ filter (\<lambda>u. phase_of s' u \<noteq> Some Running) (locks s')"
      using inv unfolding s' by (simp add: lock_inv_def)
    show ?thesis using d m u hr a by (simp add: lock_inv_def)
  qed
qed

lemma lock_inv_Resume:
  assumes inv: "lock_inv s" and st: "step (Resume t) s = Some s'"
  shows "lock_inv s'"
proof -
  from st obtain p where w: "phase_of s t = Some (Waiting p)" and pu: "p \<in> set (unlocked s)"
    and s': "s' = s\<lparr>phase_of := (phase_of s)(t \<mapsto> Running), started := started s @ [t]\<rparr>"
    by (auto split: option.splits phase.splits if_splits)
  from resumable_is_head [OF inv w pu] obtain rest where l: "locks s = t # rest" by blast
  have q: "queued (phase_of s) t rest" using lock_inv_head [OF inv l] by simp
  have tr: "t \<notin> set rest" using inv l by (simp add: lock_inv_def)
  have hr: "head_ready s'" unfolding s' head_ready_def using l q tr by (simp add: queued_upd)
  have d: "distinct (locks s')" using inv unfolding s' by (simp add: lock_inv_def)
  have m: "\<forall>u. u \<in> set (locks s') \<longleftrightarrow>
             (phase_of s' u = Some Running \<or> (\<exists>p. phase_of s' u = Some (Waiting p)))"
    using inv l unfolding s' by (auto simp: lock_inv_def)
  have u: "\<forall>u. u \<in> set (unlocked s') \<longleftrightarrow> (\<exists>ok. phase_of s' u = Some (Settled ok))"
    using inv w unfolding s' by (auto simp: lock_inv_def)
  have f0: "filter (\<lambda>u. phase_of s u \<noteq> Some Running) (locks s) = t # rest"
    using queued_not_running [OF q] w l by simp
  have "filter (\<lambda>u. phase_of s' u \<noteq> Some Running) rest
          = filter (\<lambda>u. phase_of s u \<noteq> Some Running) rest"
    unfolding s' using tr by (auto intro: filter_cong)
  then have f1: "filter (\<lambda>u. phase_of s' u \<noteq> Some Running) (locks s') = rest"
    using queued_not_running [OF q] l unfolding s' by simp
  have a: "acquired s' = started s' @ filter (\<lambda>u. phase_of s' u \<noteq> Some Running) (locks s')"
    using inv f0 unfolding f1 unfolding s' by (simp add: lock_inv_def)
  show ?thesis using d m u hr a by (simp add: lock_inv_def)
qed

lemma lock_inv_Finish:
  assumes inv: "lock_inv s" and st: "step (Finish t ok) s = Some s'"
  shows "lock_inv s'"
proof -
  from st have r: "phase_of s t = Some Running"
    and s': "s' = s\<lparr>locks := drop 1 (locks s), unlocked := unlocked s @ [t],
                     phase_of := (phase_of s)(t \<mapsto> Settled ok)\<rparr>"
    by (auto split: if_splits)
  from running_is_head [OF inv r] obtain rest where l: "locks s = t # rest" by blast
  have q: "queued (phase_of s) t rest" using lock_inv_head [OF inv l] by simp
  have tr: "t \<notin> set rest" and dr: "distinct rest" using inv l by (simp_all add: lock_inv_def)
  have hr: "head_ready s'"
  proof (cases rest)
    case Nil
    then show ?thesis unfolding s' head_ready_def using l by simp
  next
    case (Cons h' rest')
    then have "phase_of s h' = Some (Waiting t)" "queued (phase_of s) h' rest'"
      using q by simp_all
    moreover have "h' \<noteq> t" "t \<notin> set rest'" using tr Cons by auto
    ultimately show ?thesis unfolding s' head_ready_def using l Cons
      by (simp add: queued_upd)
  qed
  have d: "distinct (locks s')" using dr l unfolding s' by simp
  have m: "\<forall>u. u \<in> set (locks s') \<longleftrightarrow>
             (phase_of s' u = Some Running \<or> (\<exists>p. phase_of s' u = Some (Waiting p)))"
    using inv l tr unfolding s' by (auto simp: lock_inv_def)
  have u: "\<forall>u. u \<in> set (unlocked s') \<longleftrightarrow> (\<exists>ok. phase_of s' u = Some (Settled ok))"
    using inv r unfolding s' by (auto simp: lock_inv_def)
  have "filter (\<lambda>u. phase_of s' u \<noteq> Some Running) rest
          = filter (\<lambda>u. phase_of s u \<noteq> Some Running) rest"
    unfolding s' using tr by (auto intro: filter_cong)
  then have a: "acquired s' = started s' @ filter (\<lambda>u. phase_of s' u \<noteq> Some Running) (locks s')"
    using inv l r unfolding s' by (simp add: lock_inv_def)
  show ?thesis using d m u hr a by (simp add: lock_inv_def)
qed

lemma lock_inv_step: "lock_inv s \<Longrightarrow> step e s = Some s' \<Longrightarrow> lock_inv s'"
  by (cases e) (auto intro: lock_inv_Acquire lock_inv_Resume lock_inv_Finish)

lemma lock_inv_run: "lock_inv s \<Longrightarrow> run evs s = Some s' \<Longrightarrow> lock_inv s'"
proof (induction evs arbitrary: s)
  case Nil
  then show ?case by simp
next
  case (Cons e evs)
  then obtain s1 where "step e s = Some s1" "run evs s1 = Some s'"
    by (auto split: option.splits)
  then show ?case using Cons.IH lock_inv_step Cons.prems(1) by blast
qed

text \<open>
  Claim C6. In every state that the calls of \<open>doWithLock\<close> for one lock name can
  reach: at most one task is in progress; the tasks were started in the order in
  which \<open>doWithLock\<close> was called (the started calls are a prefix of the calls made);
  and when the task in progress finishes, whether it returned or threw, its token is
  the head of the array and is removed from it, its promise is resolved, no task is
  in progress, and if a call is still queued, the first of them can continue.
\<close>

theorem doWithLock_serializes:
  assumes "run evs no_locks = Some s"
  shows "(\<forall>t u. phase_of s t = Some Running \<and> phase_of s u = Some Running \<longrightarrow> t = u)
       \<and> prefix (started s) (acquired s)
       \<and> (\<forall>t ok s'. step (Finish t ok) s = Some s' \<longrightarrow>
            (\<exists>rest. locks s = t # rest \<and> locks s' = rest)
            \<and> t \<notin> set (locks s') \<and> t \<in> set (unlocked s')
            \<and> (\<forall>u. phase_of s' u \<noteq> Some Running)
            \<and> (locks s' \<noteq> [] \<longrightarrow> step (Resume (hd (locks s'))) s' \<noteq> None))"
proof -
  have inv: "lock_inv s" using lock_inv_run [OF lock_inv_init assms] .
  have one: "\<forall>t u. phase_of s t = Some Running \<and> phase_of s u = Some Running \<longrightarrow> t = u"
  proof (intro allI impI)
    fix t u assume "phase_of s t = Some Running \<and> phase_of s u = Some Running"
    then show "t = u"
      using running_is_head [OF inv, of t] running_is_head [OF inv, of u] by auto
  qed
  have fifo: "prefix (started s) (acquired s)"
    using inv by (auto simp: lock_inv_def prefix_def)
  have fin: "\<forall>t ok s'. step (Finish t ok) s = Some s' \<longrightarrow>
            (\<exists>rest. locks s = t # rest \<and> locks s' = rest)
            \<and> t \<notin> set (locks s') \<and> t \<in> set (unlocked s')
            \<and> (\<forall>u. phase_of s' u \<noteq> Some Running)
            \<and> (locks s' \<noteq> [] \<longrightarrow> step (Resume (hd (locks s'))) s' \<noteq> None)"
  proof (intro allI impI)
    fix t ok s' assume st: "step (Finish t ok) s = Some s'"
    then have r: "phase_of s t = Some Running"
      and s': "s' = s\<lparr>locks := drop 1 (locks s), unlocked := unlocked s @ [t],
                       phase_of := (phase_of s)(t \<mapsto> Settled ok)\<rparr>"
      by (auto split: if_splits)
    from running_is_head [OF inv r] obtain rest where l: "locks s = t # rest" by blast
    have inv': "lock_inv s'" using lock_inv_step [OF inv st] .
    have l': "locks s' = rest" unfolding s' using l by simp
    have tr: "t \<notin> set rest" using inv l by (simp add: lock_inv_def)
    have nr: "\<forall>u. phase_of s' u \<noteq> Some Running"
    proof
      fix u show "phase_of s' u \<noteq> Some Running"
      proof
        assume "phase_of s' u = Some Running"
        then have "u \<noteq> t" "phase_of s u = Some Running" unfolding s' by (auto split: if_splits)
        then show False using one r by blast
      qed
    qed
    have nxt: "locks s' \<noteq> [] \<longrightarrow> step (Resume (hd (locks s'))) s' \<noteq> None"
    proof
      assume "locks s' \<noteq> []"
      then obtain h' rest' where c: "locks s' = h' # rest'" by (cases "locks s'") auto
      from lock_inv_head(1) [OF inv' c] nr
      obtain p where "phase_of s' h' = Some (Waiting p)" "p \<in> set (unlocked s')" by blast
      then show "step (Resume (hd (locks s'))) s' \<noteq> None" using c by simp
    qed
    show "(\<exists>rest. locks s = t # rest \<and> locks s' = rest)
            \<and> t \<notin> set (locks s') \<and> t \<in> set (unlocked s')
            \<and> (\<forall>u. phase_of s' u \<noteq> Some Running)
            \<and> (locks s' \<noteq> [] \<longrightarrow> step (Resume (hd (locks s'))) s' \<noteq> None)"
      using l l' tr nr nxt unfolding s' by simp
  qed
  show ?thesis using one fifo fin by blast
qed

text \<open>
  Three calls; the first task throws, the second is resumed and returns, the third
  can then continue.
\<close>

theorem doWithLock_serializes_witness:
  "run [Acquire 1, Acquire 2, Acquire 3, Finish 1 False, Resume 2] no_locks = Some three_calls
   \<and> phase_of three_calls 2 = Some Running
   \<and> phase_of three_calls 3 \<noteq> Some Running
   \<and> prefix (started three_calls) (acquired three_calls)
   \<and> step (Finish 2 True) three_calls = Some second_done
   \<and> locks three_calls = 2 # locks second_done
   \<and> 2 \<notin> set (locks second_done) \<and> 2 \<in> set (unlocked second_done)
   \<and> locks second_done \<noteq> []
   \<and> step (Resume (hd (locks second_done))) second_done \<noteq> None"
proof -
  have r: "run [Acquire 1, Acquire 2, Acquire 3, Finish 1 False, Resume 2] no_locks
             = Some three_calls"
    by (simp add: no_locks_def three_calls_def Let_def fun_upd_twist)
  have p2: "phase_of three_calls 2 = Some Running" by (simp add: three_calls_def)
  have f: "step (Finish 2 True) three_calls = Some second_done"
    by (simp add: three_calls_def second_done_def)
  have ne: "locks second_done \<noteq> []" by (simp add: second_done_def)
  from doWithLock_serializes [OF r]
  have one: "\<forall>t u. phase_of three_calls t = Some Running \<and> phase_of three_calls u = Some Running
                \<longrightarrow> t = u"
    and fifo: "prefix (started three_calls) (acquired three_calls)"
    and fin: "\<forall>t ok s'. step (Finish t ok) three_calls = Some s' \<longrightarrow>
            (\<exists>rest. locks three_calls = t # rest \<and> locks s' = rest)
            \<and> t \<notin> set (locks s') \<and> t \<in> set (unlocked s')
            \<and> (\<forall>u. phase_of s' u \<noteq> Some Running)
            \<and> (locks s' \<noteq> [] \<longrightarrow> step (Resume (hd (locks s'))) s' \<noteq> None)"
    by blast+
  from one p2 have p3: "phase_of three_calls 3 \<noteq> Some Running" by fastforce
  from fin f have
    "(\<exists>rest. locks three_calls = 2 # rest \<and> locks second_done = rest)
     \<and> 2 \<notin> set (locks second_done) \<and> 2 \<in> set (unlocked second_done)
     \<and> (locks second_done \<noteq> [] \<longrightarrow> step (Resume (hd (locks second_done))) second_done \<noteq> None)"
    by blast
  with r p2 p3 fifo f ne show ?thesis by auto
qed

section \<open>Properties of the output file collection\<close>

lemma filter_map_Cons:
  "filter (\<lambda>parts. \<forall>c\<in>set parts. P c) (map ((#) e) ps)
     = (if P e then map ((#) e) (filter (\<lambda>parts. \<forall>c\<in>set parts. P c) ps) else [])"
  by (induction ps) auto

lemma listFilesRecursive_paths:
  "listFilesRecursive names dir entries
     = map (foldl join2 dir)
         (filter (\<lambda>parts. \<forall>c\<in>set parts. listed_name names c) (file_paths entries))"
proof (induction names dir entries rule: listFilesRecursive.induct)
  case (1 names dir)
  show ?case by simp
next
  case (2 names dir entry n entries)
  show ?case
  proof (cases "listed_name names entry")
    case False
    then have skip: "entry = ''.'' \<or> entry = ''..'' \<or> entry \<in> names"
      by (auto simp: listed_name_def)
    have "filter (\<lambda>parts. \<forall>c\<in>set parts. listed_name names c)
            (case n of Dir sub \<Rightarrow> map ((#) entry) (file_paths sub) | File d \<Rightarrow> [[entry]]) = []"
      using False by (cases n) (simp_all add: filter_map_Cons)
    moreover have "listFilesRecursive names dir ((entry, n) # entries)
                     = listFilesRecursive names dir entries"
      using skip by auto
    moreover have "listFilesRecursive names dir entries
       = map (foldl join2 dir)
           (filter (\<lambda>parts. \<forall>c\<in>set parts. listed_name names c) (file_paths entries))"
      using skip 2 by (auto simp: listed_name_def)
    ultimately show ?thesis by simp
  next
    case True
    then have keep: "\<not> (entry = ''.'' \<or> entry = ''..'')" "entry \<notin> names"
      by (auto simp: listed_name_def)
    have rest: "listFilesRecursive names dir entries
       = map (foldl join2 dir)
           (filter (\<lambda>parts. \<forall>c\<in>set parts. listed_name names c) (file_paths entries))"
      using keep 2 by simp
    show ?thesis
    proof (cases n)
      case (File d)
      then show ?thesis using keep rest True by simp
    next
      case (Dir sub)
      have "listFilesRecursive names (join2 dir entry) sub
         = map (foldl join2 (join2 dir entry))
             (filter (\<lambda>parts. \<forall>c\<in>set parts. listed_name names c) (file_paths sub))"
        using keep 2 Dir by simp
      then show ?thesis using keep rest True Dir
        by (simp add: filter_map_Cons comp_def)
    qed
  qed
qed

lemma read_new_files_names:
  "read_new_files limit fs fl = Inr new_files \<Longrightarrow>
   map fst new_files = map (drop (length pythonEnvironmentHomeDir + 1)) fl"
  by (induction fl arbitrary: new_files) (auto split: sum.splits)

lemma split_on_append:
  "sep \<notin> set p \<Longrightarrow>
   split_on sep (p @ s) = (p @ hd (split_on sep s)) # tl (split_on sep s)"
proof (induction p)
  case Nil
  show ?case using split_on_ne [of sep s] by (cases "split_on sep s") simp_all
next
  case (Cons c p)
  then show ?case by auto
qed

lemma split_on_abs_path:
  "\<forall>p\<in>set parts. CHR ''/'' \<notin> set p \<Longrightarrow> split_on CHR ''/'' (abs_path parts) = [] # parts"
proof (induction parts)
  case Nil
  show ?case by (simp add: abs_path_def)
next
  case (Cons p parts)
  then have ih: "split_on CHR ''/'' (abs_path parts) = [] # parts" by simp
  have "abs_path (p # parts) = CHR ''/'' # (p @ abs_path parts)" by (simp add: abs_path_def)
  moreover have "split_on CHR ''/'' (p @ abs_path parts) = p # parts"
    using Cons.prems ih by (simp add: split_on_append)
  ultimately show ?case by simp
qed

lemma normalizeArray_scan_plain:
  "\<forall>p\<in>set parts. p \<noteq> ''.'' \<and> p \<noteq> ''..'' \<Longrightarrow> normalizeArray_scan parts = (parts, 0)"
  by (induction parts) auto

lemma join_with_Cons:
  "join_with sep (x # xs) = x @ (if xs = [] then [] else sep @ join_with sep xs)"
  by (cases xs) simp_all

lemma abs_path_join: "parts \<noteq> [] \<Longrightarrow> abs_path parts = ''/'' @ join_with ''/'' parts"
proof (induction parts)
  case Nil
  then show ?case by simp
next
  case (Cons p parts)
  show ?case
  proof (cases "parts = []")
    case True
    then show ?thesis by (simp add: abs_path_def)
  next
    case False
    then have "abs_path parts = ''/'' @ join_with ''/'' parts" using Cons.IH by simp
    moreover have "abs_path (p # parts) = ''/'' @ p @ abs_path parts" by (simp add: abs_path_def)
    ultimately show ?thesis using False by (simp add: join_with_Cons)
  qed
qed

lemma abs_path_last:
  "parts \<noteq> [] \<Longrightarrow> last parts \<noteq> [] \<Longrightarrow> last (abs_path parts) = last (last parts)"
  by (induction parts) (auto simp: abs_path_def)

lemma abs_path_nonempty: "parts \<noteq> [] \<Longrightarrow> abs_path parts \<noteq> [] \<and> hd (abs_path parts) = CHR ''/''"
  by (cases parts) (simp_all add: abs_path_def)

lemma PATH_normalize_abs_path:
  assumes "parts \<noteq> []" "\<forall>p\<in>set parts. plain_part p"
  shows "PATH_normalize (abs_path parts) = abs_path parts"
proof -
  have sl: "\<forall>p\<in>set parts. CHR ''/'' \<notin> set p" and ne: "\<forall>p\<in>set parts. p \<noteq> []"
    and dots: "\<forall>p\<in>set parts. p \<noteq> ''.'' \<and> p \<noteq> ''..''"
    using assms(2) by (auto simp: plain_part_def valid_name_def)
  have f: "filter (\<lambda>x. x \<noteq> []) (split_on CHR ''/'' (abs_path parts)) = parts"
    using split_on_abs_path [OF sl] ne by (simp add: filter_id_conv)
  have n: "normalizeArray parts False = parts"
    using normalizeArray_scan_plain [OF dots] by (simp add: normalizeArray_def)
  have lp: "last parts \<in> set parts" using assms(1) by simp
  then have "last parts \<noteq> []" "CHR ''/'' \<notin> set (last parts)" using sl ne by auto
  then have "last (last parts) \<noteq> CHR ''/''" using last_in_set by metis
  then have t: "last (abs_path parts) \<noteq> CHR ''/''"
    using abs_path_last [OF assms(1) \<open>last parts \<noteq> []\<close>] by simp
  have j: "join_with ''/'' parts \<noteq> []"
    using assms(1) ne by (cases parts) (auto simp: join_with_Cons)
  show ?thesis
    using abs_path_nonempty [OF assms(1)] f n t j abs_path_join [OF assms(1)]
    by (simp add: PATH_normalize_def Let_def)
qed

lemma join2_abs_path:
  assumes "\<forall>p\<in>set parts. plain_part p" "plain_part c"
  shows "join2 (abs_path parts) c = abs_path (parts @ [c])"
proof -
  have "abs_path parts @ ''/'' @ c = abs_path (parts @ [c])" by (simp add: abs_path_def)
  then show ?thesis
    using PATH_normalize_abs_path [of "parts @ [c]"] assms by (simp add: join2_def)
qed

lemma foldl_join2_abs_path:
  "\<forall>p\<in>set parts. plain_part p \<Longrightarrow> \<forall>c\<in>set cs. plain_part c \<Longrightarrow>
   foldl join2 (abs_path parts) cs = abs_path (parts @ cs)"
proof (induction cs arbitrary: parts)
  case Nil
  show ?case by simp
next
  case (Cons c cs)
  have "foldl join2 (abs_path parts) (c # cs) = foldl join2 (abs_path (parts @ [c])) cs"
    using join2_abs_path [of parts c] Cons.prems by simp
  also have "\<dots> = abs_path ((parts @ [c]) @ cs)"
    using Cons.prems by (intro Cons.IH) auto
  finally show ?case by simp
qed

lemma home_abs_path: "pythonEnvironmentHomeDir = abs_path [''home'', ''earth'']"
  by (simp add: pythonEnvironmentHomeDir_def abs_path_def)

lemma file_paths_valid:
  "valid_entries entries \<Longrightarrow> parts \<in> set (file_paths entries) \<Longrightarrow>
   parts \<noteq> [] \<and> (\<forall>c\<in>set parts. valid_name c)"
proof (induction entries arbitrary: parts rule: file_paths.induct)
  case 1
  then show ?case by simp
next
  case (2 entry n entries)
  show ?case
  proof (cases n)
    case (File d)
    then show ?thesis using 2 by auto
  next
    case (Dir sub)
    then show ?thesis using 2 by auto
  qed
qed

lemma basename_no_slash: "CHR ''/'' \<notin> set (basename p)"
  by (auto simp: basename_def dest: set_takeWhileD)

lemma prepared_names_no_slash:
  "n \<in> default_file_names (prepareEnvironment host_files new_environment) \<Longrightarrow> CHR ''/'' \<notin> set n"
  by (auto simp: prepareEnvironment_def new_environment_def readHostFile_def basename_no_slash
        split: prod.splits)

lemma listed_relative_name:
  assumes "valid_entries entries" "\<forall>n\<in>names. CHR ''/'' \<notin> set n"
    and "f \<in> set (listFilesRecursive names pythonEnvironmentHomeDir entries)"
  shows "drop (length pythonEnvironmentHomeDir + 1) f \<notin> names"
proof -
  from assms(3) obtain parts where p: "parts \<in> set (file_paths entries)"
    and l: "\<forall>c\<in>set parts. listed_name names c"
    and f: "f = foldl join2 pythonEnvironmentHomeDir parts"
    by (auto simp: listFilesRecursive_paths)
  from file_paths_valid [OF assms(1) p] have ne: "parts \<noteq> []" and v: "\<forall>c\<in>set parts. valid_name c"
    by simp_all
  have pl: "\<forall>c\<in>set parts. plain_part c" using v l by (auto simp: plain_part_def listed_name_def)
  have hp: "\<forall>p\<in>set [''home'', ''earth'']. plain_part p"
    by (simp add: plain_part_def valid_name_def)
  have "f = abs_path ([''home'', ''earth''] @ parts)"
    unfolding f home_abs_path using foldl_join2_abs_path [OF hp pl] .
  then have "f = pythonEnvironmentHomeDir @ abs_path parts"
    by (simp add: abs_path_def pythonEnvironmentHomeDir_def)
  then have d: "drop (length pythonEnvironmentHomeDir + 1) f = join_with ''/'' parts"
    using abs_path_join [OF ne] by simp
  show ?thesis
  proof (cases parts)
    case Nil
    then show ?thesis using ne by simp
  next
    case (Cons c rest)
    show ?thesis
    proof (cases "rest = []")
      case True
      then show ?thesis using d Cons l by (simp add: listed_name_def)
    next
      case False
      then have "CHR ''/'' \<in> set (join_with ''/'' parts)"
        using Cons by (simp add: join_with_Cons)
      then show ?thesis using d assms(2) by auto
    qed
  qed
qed

lemma try_block_done:
  assumes "try_block eng env code files = (None, s)"
  shows "\<exists>new_files. output_files (res s) = Some new_files
           \<and> collect_new_files (max_arguments eng) env files (fsys s) = Inr new_files \<and> pyodide env \<noteq> None"
proof (cases "pyodide env")
  case None
  then show ?thesis using assms by (simp add: try_block_def)
next
  case (Some fs0)
  show ?thesis
  proof (cases "loadPackagesFromImports eng code")
    case (Some e)
    then show ?thesis using assms \<open>pyodide env = Some fs0\<close> by (simp add: try_block_def)
  next
    case None
    obtain t s1 where fe: "forEach_files files (initial_state env fs0 :: 'a run_state) = (t, s1)"
      by (cases "forEach_files files (initial_state env fs0 :: 'a run_state)") auto
    show ?thesis
    proof (cases t)
      case (Some e)
      then show ?thesis using assms \<open>pyodide env = Some fs0\<close> None fe by (simp add: try_block_def)
    next
      case None2: None
      then have "run_and_collect eng env code files s1 = (None, s)"
        using assms \<open>pyodide env = Some fs0\<close> None fe by (simp add: try_block_def)
      then show ?thesis using \<open>pyodide env = Some fs0\<close>
        by (auto simp: run_and_collect_def Let_def split: sum.splits)
    qed
  qed
qed

lemma runCode_output_files:
  assumes "runCode eng env startCode endCode code files = (r, env')"
    and "output_files r = Some new_files" "pyodide env' = Some fs'"
  shows "collect_new_files (max_arguments eng) env files fs' = Inr new_files"
proof -
  obtain thrown s where t: "try_block eng env code files = (thrown, s)"
    by (cases "try_block eng env code files") auto
  show ?thesis
  proof (cases thrown)
    case (Some e)
    from try_block_thrown_res [OF t [unfolded Some]] assms(1,2) t Some
    show ?thesis by (auto simp: runCode_def)
  next
    case None
    from try_block_done [OF t [unfolded None]] obtain nf fs0 where
      "output_files (res s) = Some nf" "collect_new_files (max_arguments eng) env files (fsys s) = Inr nf"
      "pyodide env = Some fs0" by auto
    then show ?thesis using assms t None by (auto simp: runCode_def)
  qed
qed

lemma collect_new_files_names:
  assumes "collect_new_files limit env files fs = Inr new_files" "(name, b64) \<in> set new_files"
  shows "Some name \<notin> set (map filename files)
       \<and> (\<exists>entries f. FS_readdir pythonEnvironmentHomeDir fs = Inr entries
            \<and> f \<in> set (listFilesRecursive (default_file_names env) pythonEnvironmentHomeDir entries)
            \<and> name = drop (length pythonEnvironmentHomeDir + 1) f)"
proof -
  from assms(1) obtain entries where rd: "FS_readdir pythonEnvironmentHomeDir fs = Inr entries"
    and rn: "read_new_files limit fs
               (filter (\<lambda>f. Some (drop (length pythonEnvironmentHomeDir + 1) f)
                               \<notin> set (map filename files))
                  (listFilesRecursive (default_file_names env) pythonEnvironmentHomeDir entries))
             = Inr new_files"
    by (auto simp: collect_new_files_def Let_def split: sum.splits)
  from assms(2) have "name \<in> set (map fst new_files)" by force
  then have "name \<in> set (map (drop (length pythonEnvironmentHomeDir + 1))
               (filter (\<lambda>f. Some (drop (length pythonEnvironmentHomeDir + 1) f)
                               \<notin> set (map filename files))
                  (listFilesRecursive (default_file_names env) pythonEnvironmentHomeDir entries)))"
    using read_new_files_names [OF rn] by simp
  then show ?thesis using rd by auto
qed

text \<open>
  Claim C7. Let the lookup set of default file names be the one that
  \<open>prepareEnvironment\<close> builds from the seed directory, and let the home directory
  that the run leaves hold valid names only. Then no filename in \<open>output_files\<close> is a
  default file name, and none is the filename of an input file of the request. In
  particular, with the input file \<open>a.txt\<close>, the default file \<open>seed.txt\<close> and a program
  that creates \<open>b.txt\<close>, \<open>output_files\<close> is exactly \<open>b.txt\<close>.
\<close>

theorem output_files_exclude_defaults_and_inputs:
  "(default_file_names env = default_file_names (prepareEnvironment host_files new_environment)
      \<and> runCode eng env startCode endCode code files = (r, env')
      \<and> pyodide env' = Some fs' \<and> valid_home fs'
      \<and> output_files r = Some new_files
    \<longrightarrow> (\<forall>(name, b64)\<in>set new_files.
           name \<notin> default_file_names env \<and> Some name \<notin> set (map filename files)))
   \<and> default_file_names demo_env = {''seed.txt''}
   \<and> output_files (fst (runCode demo_engine demo_env 10 26 write_b_program [a_txt]))
       = Some [(''b.txt'', ''aGk='')]"
proof (intro conjI impI)
  assume a: "default_file_names env = default_file_names (prepareEnvironment host_files new_environment)
      \<and> runCode eng env startCode endCode code files = (r, env')
      \<and> pyodide env' = Some fs' \<and> valid_home fs'
      \<and> output_files r = Some new_files"
  then have rc: "runCode eng env startCode endCode code files = (r, env')"
    and out: "output_files r = Some new_files" and fs': "pyodide env' = Some fs'"
    and vh: "valid_home fs'" by simp_all
  have ns: "\<forall>n\<in>default_file_names env. CHR ''/'' \<notin> set n"
    using a prepared_names_no_slash by auto
  have c: "collect_new_files (max_arguments eng) env files fs' = Inr new_files"
    using runCode_output_files [OF rc out fs'] .
  show "\<forall>(name, b64)\<in>set new_files.
           name \<notin> default_file_names env \<and> Some name \<notin> set (map filename files)"
  proof (clarify, rule conjI)
    fix name b64 assume m: "(name, b64) \<in> set new_files"
    from collect_new_files_names [OF c m]
    obtain entries f where i: "Some name \<notin> set (map filename files)"
      and rd: "FS_readdir pythonEnvironmentHomeDir fs' = Inr entries"
      and f: "f \<in> set (listFilesRecursive (default_file_names env) pythonEnvironmentHomeDir entries)"
      and n: "name = drop (length pythonEnvironmentHomeDir + 1) f"
      by blast
    have "valid_entries entries" using vh rd by (simp add: valid_home_def)
    from listed_relative_name [OF this ns f] n
    show "name \<notin> default_file_names env" by simp
    from i show "Some name \<notin> set (map filename files)" .
  qed
next
  show "default_file_names demo_env = {''seed.txt''}" by code_simp
next
  show "output_files (fst (runCode demo_engine demo_env 10 26 write_b_program [a_txt]))
       = Some [(''b.txt'', ''aGk='')]" by code_simp
qed

text \<open>
  The run of the example: \<open>a.txt\<close> and \<open>seed.txt\<close> are in the home directory after
  the run, and only \<open>b.txt\<close> is returned.
\<close>

theorem output_files_exclude_defaults_and_inputs_witness:
  "default_file_names demo_env
     = default_file_names (prepareEnvironment [(''seed.txt'', seed_bytes)] new_environment)
   \<and> fst (runCode demo_engine demo_env 10 26 write_b_program [a_txt])
       = \<lparr>success = True, final_expression = Some 2,
          output_files = Some [(''b.txt'', ''aGk='')], error = None,
          std_out = Some [], std_err = Some [], code_runtime = Some 16\<rparr>
   \<and> pyodide (snd (runCode demo_engine demo_env 10 26 write_b_program [a_txt])) = Some b_fs
   \<and> valid_home b_fs
   \<and> ''b.txt'' \<notin> default_file_names demo_env
   \<and> Some ''b.txt'' \<notin> set (map filename [a_txt])
   \<and> FS_readFile ''/home/earth/a.txt'' b_fs = Inr hi_bytes
   \<and> FS_readFile ''/home/earth/seed.txt'' b_fs = Inr seed_bytes"
proof -
  let ?r = "\<lparr>success = True, final_expression = Some (2::int),
          output_files = Some [(''b.txt'', ''aGk='')], error = None,
          std_out = Some [], std_err = Some [], code_runtime = Some 16\<rparr>"
  have n: "default_file_names demo_env
     = default_file_names (prepareEnvironment [(''seed.txt'', seed_bytes)] new_environment)"
    by code_simp
  have r: "fst (runCode demo_engine demo_env 10 26 write_b_program [a_txt]) = ?r"
    by code_simp
  have e: "pyodide (snd (runCode demo_engine demo_env 10 26 write_b_program [a_txt])) = Some b_fs"
    by code_simp
  have v: "valid_home b_fs" by code_simp
  have ra: "FS_readFile ''/home/earth/a.txt'' b_fs = Inr hi_bytes"
    and rs: "FS_readFile ''/home/earth/seed.txt'' b_fs = Inr seed_bytes"
    by code_simp+
  have rc: "runCode demo_engine demo_env 10 26 write_b_program [a_txt]
          = (?r, snd (runCode demo_engine demo_env 10 26 write_b_program [a_txt]))"
    using r by (metis prod.collapse)
  from output_files_exclude_defaults_and_inputs
         [of demo_env "[(''seed.txt'', seed_bytes)]" demo_engine 10 26 write_b_program "[a_txt]" ?r
             "snd (runCode demo_engine demo_env 10 26 write_b_program [a_txt])" b_fs
             "[(''b.txt'', ''aGk='')]"]
       n rc e v
  have "\<forall>(name, b64)\<in>set [(''b.txt'', ''aGk='')].
           name \<notin> default_file_names demo_env \<and> Some name \<notin> set (map filename [a_txt])"
    by simp
  then have "''b.txt'' \<notin> default_file_names demo_env \<and> Some ''b.txt'' \<notin> set (map filename [a_txt])"
    by simp
  then show ?thesis using n r e v ra rs by simp
qed

text \<open>
  Claim C10. The listing returns exactly the files whose path below the listed
  directory has no part that is a default file name (or one of the two markers): a
  file with such a basename is skipped at any depth, and a directory with such a name
  is skipped with everything below it. The filenames of \<open>output_files\<close> are the listed
  paths, minus those of the input files, relative to the home directory.
\<close>

theorem default_names_pruned_at_every_depth:
  "listFilesRecursive names dir entries
     = map (foldl join2 dir)
         (filter (\<lambda>parts. \<forall>c\<in>set parts. listed_name names c) (file_paths entries))
   \<and> (FS_readdir pythonEnvironmentHomeDir fs = Inr entries
        \<and> collect_new_files limit env files fs = Inr new_files
      \<longrightarrow> map fst new_files
          = map (drop (length pythonEnvironmentHomeDir + 1))
              (filter (\<lambda>f. Some (drop (length pythonEnvironmentHomeDir + 1) f)
                              \<notin> set (map filename files))
                 (map (foldl join2 pythonEnvironmentHomeDir)
                    (filter (\<lambda>parts. \<forall>c\<in>set parts. listed_name (default_file_names env) c)
                       (file_paths entries)))))"
proof (intro conjI impI)
  show "listFilesRecursive names dir entries
     = map (foldl join2 dir)
         (filter (\<lambda>parts. \<forall>c\<in>set parts. listed_name names c) (file_paths entries))"
    by (rule listFilesRecursive_paths)
next
  assume a: "FS_readdir pythonEnvironmentHomeDir fs = Inr entries
        \<and> collect_new_files limit env files fs = Inr new_files"
  then have rd: "FS_readdir pythonEnvironmentHomeDir fs = Inr entries"
    and c: "collect_new_files limit env files fs = Inr new_files" by simp_all
  from c have "read_new_files limit fs
               (filter (\<lambda>f. Some (drop (length pythonEnvironmentHomeDir + 1) f)
                               \<notin> set (map filename files))
                  (listFilesRecursive (default_file_names env) pythonEnvironmentHomeDir entries))
             = Inr new_files"
    unfolding collect_new_files_def Let_def rd by simp
  from read_new_files_names [OF this]
  show "map fst new_files
          = map (drop (length pythonEnvironmentHomeDir + 1))
              (filter (\<lambda>f. Some (drop (length pythonEnvironmentHomeDir + 1) f)
                              \<notin> set (map filename files))
                 (map (foldl join2 pythonEnvironmentHomeDir)
                    (filter (\<lambda>parts. \<forall>c\<in>set parts. listed_name (default_file_names env) c)
                       (file_paths entries))))"
    by (simp only: listFilesRecursive_paths)
qed

text \<open>
  A home directory with \<open>seed.txt\<close> and a directory \<open>sub\<close> that holds \<open>seed.txt\<close> and
  \<open>new.txt\<close>: with the default name \<open>seed.txt\<close> only \<open>sub/new.txt\<close> is listed and
  returned; with the default name \<open>sub\<close> the whole directory is left out.
\<close>

theorem default_names_pruned_at_every_depth_witness:
  "file_paths sub_entries = [[''seed.txt''], [''sub'', ''seed.txt''], [''sub'', ''new.txt'']]
   \<and> listFilesRecursive {''seed.txt''} pythonEnvironmentHomeDir sub_entries
       = [''/home/earth/sub/new.txt'']
   \<and> listFilesRecursive {''sub''} pythonEnvironmentHomeDir sub_entries
       = [''/home/earth/seed.txt'']
   \<and> pyodide (snd (runCode demo_engine demo_env 10 26 ''make_sub()'' [])) = Some sub_fs
   \<and> FS_readdir pythonEnvironmentHomeDir sub_fs = Inr sub_entries
   \<and> collect_new_files (max_arguments demo_engine) demo_env [] sub_fs = Inr [(''sub/new.txt'', ''aGk='')]
   \<and> map fst [(''sub/new.txt'', ''aGk='')] = [''sub/new.txt'']"
proof -
  have fp: "file_paths sub_entries = [[''seed.txt''], [''sub'', ''seed.txt''], [''sub'', ''new.txt'']]"
    by code_simp
  have e: "pyodide (snd (runCode demo_engine demo_env 10 26 ''make_sub()'' [])) = Some sub_fs"
    by code_simp
  have rd: "FS_readdir pythonEnvironmentHomeDir sub_fs = Inr sub_entries"
    by code_simp
  have c: "collect_new_files (max_arguments demo_engine) demo_env [] sub_fs = Inr [(''sub/new.txt'', ''aGk='')]"
    by code_simp
  have dn: "default_file_names demo_env = {''seed.txt''}" by code_simp
  have k1: "map (foldl join2 pythonEnvironmentHomeDir)
              (filter (\<lambda>parts. \<forall>c\<in>set parts. listed_name {''seed.txt''} c)
                 [[''seed.txt''], [''sub'', ''seed.txt''], [''sub'', ''new.txt'']])
            = [''/home/earth/sub/new.txt'']"
    by code_simp
  have k2: "map (foldl join2 pythonEnvironmentHomeDir)
              (filter (\<lambda>parts. \<forall>c\<in>set parts. listed_name {''sub''} c)
                 [[''seed.txt''], [''sub'', ''seed.txt''], [''sub'', ''new.txt'']])
            = [''/home/earth/seed.txt'']"
    by code_simp
  note t1 = default_names_pruned_at_every_depth
              [of "{''seed.txt''}" pythonEnvironmentHomeDir sub_entries sub_fs
                  "max_arguments demo_engine" demo_env "[] :: file_entry list"
                  "[(''sub/new.txt'', ''aGk='')]"]
  note t2 = default_names_pruned_at_every_depth
              [of "{''sub''}" pythonEnvironmentHomeDir sub_entries sub_fs
                  "max_arguments demo_engine" demo_env "[] :: file_entry list"
                  "[(''sub/new.txt'', ''aGk='')]"]
  have l1: "listFilesRecursive {''seed.txt''} pythonEnvironmentHomeDir sub_entries
       = [''/home/earth/sub/new.txt'']"
    using t1 by (simp only: fp k1)
  have l2: "listFilesRecursive {''sub''} pythonEnvironmentHomeDir sub_entries
       = [''/home/earth/seed.txt'']"
    using t2 by (simp only: fp k2)
  have "map fst [(''sub/new.txt'', ''aGk='')]
          = map (drop (length pythonEnvironmentHomeDir + 1))
              (filter (\<lambda>f. Some (drop (length pythonEnvironmentHomeDir + 1) f)
                              \<notin> set (map filename ([] :: file_entry list)))
                 (map (foldl join2 pythonEnvironmentHomeDir)
                    (filter (\<lambda>parts. \<forall>c\<in>set parts. listed_name (default_file_names demo_env) c)
                       (file_paths sub_entries))))"
    using t1 rd c by blast
  then have m: "map fst [(''sub/new.txt'', ''aGk='')] = [''sub/new.txt'']" by simp
  show ?thesis using fp l1 l2 e rd c m by simp
qed

end
